theory Spec2Isabelle
  imports Main
begin

section \<open>JavaScript values and string primitives\<close>

text \<open>
  Strings are lists of 8-bit code units. Case conversion and identifier syntax are
  modelled for ASCII letters; every other code unit is left unchanged by
  \<open>toUpperCase\<close>/\<open>toLowerCase\<close> and is not an identifier character.
  Numbers are modelled as unbounded integers (every number the modelled code handles is
  an integer: enumeration values, version components); the numbers that strings convert
  to in arithmetic are modelled separately (\<open>number\<close> below).
\<close>

definition lower_letters :: string where
  "lower_letters = ''abcdefghijklmnopqrstuvwxyz''"

definition upper_letters :: string where
  "upper_letters = ''ABCDEFGHIJKLMNOPQRSTUVWXYZ''"

definition digit_chars :: string where
  "digit_chars = ''0123456789''"

definition is_digit :: "char \<Rightarrow> bool" where
  "is_digit c = (c \<in> set digit_chars)"

definition upper_char :: "char \<Rightarrow> char" where
  "upper_char c = (case map_of (zip lower_letters upper_letters) c of Some d \<Rightarrow> d | None \<Rightarrow> c)"

definition lower_char :: "char \<Rightarrow> char" where
  "lower_char c = (case map_of (zip upper_letters lower_letters) c of Some d \<Rightarrow> d | None \<Rightarrow> c)"

definition toUpperCase :: "string \<Rightarrow> string" where
  "toUpperCase s = map upper_char s"

definition toLowerCase :: "string \<Rightarrow> string" where
  "toLowerCase s = map lower_char s"

text \<open>\<open>s.split(sep)\<close> for a one-character separator: \<open>"".split(":")\<close> is \<open>[""]\<close>.\<close>

fun split_on :: "char \<Rightarrow> string \<Rightarrow> string list" where
  "split_on sep [] = [[]]"
| "split_on sep (c # cs) =
     (if c = sep then [] # split_on sep cs
      else (case split_on sep cs of [] \<Rightarrow> [[c]] | w # ws \<Rightarrow> (c # w) # ws))"

text \<open>\<open>s.includes(x)\<close> on strings: \<open>x\<close> occurs in \<open>s\<close> as a contiguous substring.\<close>

fun str_includes :: "string \<Rightarrow> string \<Rightarrow> bool" where
  "str_includes [] x = (x = [])"
| "str_includes (c # cs) x = (take (length x) (c # cs) = x \<or> str_includes cs x)"

text \<open>
  \<open>parseInt(s)\<close> with no radix: leading white space is skipped, then an optional sign,
  then an optional \<open>0x\<close>/\<open>0X\<close> prefix (radix 16), then the longest run of digits of the
  radix. \<open>None\<close> is \<open>NaN\<close> (no digit). The model is exact; JavaScript rounds results
  beyond \<open>2^53\<close> to the nearest double.
\<close>

definition is_js_space :: "char \<Rightarrow> bool" where
  "is_js_space c = (c \<in> set [CHR '' '', CHR 0x09, CHR 0x0A, CHR 0x0B, CHR 0x0C, CHR 0x0D, CHR 0xA0])"

definition digit_of :: "nat \<Rightarrow> char \<Rightarrow> nat option" where
  "digit_of radix c =
     (case map_of (zip digit_chars [0 ..< 10]) c of
        Some d \<Rightarrow> Some d
      | None \<Rightarrow>
          if radix = 16 then map_of (zip (''abcdef'' @ ''ABCDEF'') ([10 ..< 16] @ [10 ..< 16])) c
          else None)"

fun digits_value :: "nat \<Rightarrow> nat \<Rightarrow> string \<Rightarrow> nat" where
  "digits_value radix acc [] = acc"
| "digits_value radix acc (c # cs) =
     (case digit_of radix c of
        None \<Rightarrow> acc
      | Some d \<Rightarrow> digits_value radix (acc * radix + d) cs)"

definition parseInt :: "string \<Rightarrow> int option" where
  "parseInt s =
     (let s1 = dropWhile is_js_space s;
          neg = (case s1 of c # _ \<Rightarrow> c = CHR ''-'' | [] \<Rightarrow> False);
          s2 = (case s1 of c # cs \<Rightarrow> if c = CHR ''-'' \<or> c = CHR ''+'' then cs else s1 | [] \<Rightarrow> s1);
          hex = (take 2 s2 = ''0x'' \<or> take 2 s2 = ''0X'');
          radix = (if hex then 16 else 10);
          s3 = (if hex then drop 2 s2 else s2)
      in case s3 of
           [] \<Rightarrow> None
         | c # _ \<Rightarrow>
             if digit_of radix c = None then None
             else Some ((if neg then - 1 else 1) * int (digits_value radix 0 s3)))"

subsection \<open>Primitive values and their conversion to numbers\<close>

text \<open>
  The primitive values an enumeration member can hold in its \<open>value\<close> field: \<open>null\<close>,
  a boolean, a number or a string (\<open>undefined\<close> is the absent field).
\<close>

datatype prim = PNull | PBool bool | PNum int | PStr string

text \<open>
  A number as an operand of arithmetic: the finite number \<open>m * 10^e\<close> (\<open>NFin m e\<close>),
  \<open>+Infinity\<close> (\<open>NInf True\<close>), \<open>-Infinity\<close> (\<open>NInf False\<close>) or \<open>NaN\<close>. The model is exact
  where JavaScript rounds to the nearest double.
\<close>

datatype jsnumber = NFin int int | NInf bool | NNaN

text \<open>
  \<open>StringToNumber\<close> (the conversion \<open>-\<close> applies to a string operand): white space
  and line terminators are trimmed; the empty string is 0; \<open>0x\<close>, \<open>0o\<close> and \<open>0b\<close>
  introduce an unsigned integer in radix 16, 8 and 2; otherwise an optional sign and
  \<open>Infinity\<close> or a decimal literal with optional fraction and exponent. Every other
  string is \<open>NaN\<close>.
\<close>

definition str_trim :: "string \<Rightarrow> string" where
  "str_trim s = rev (dropWhile is_js_space (rev (dropWhile is_js_space s)))"

definition radix_digits :: "nat \<Rightarrow> string \<Rightarrow> bool" where
  "radix_digits radix s =
     (s \<noteq> [] \<and> list_all (\<lambda>c. case digit_of 16 c of Some d \<Rightarrow> d < radix | None \<Rightarrow> False) s)"

definition exponent_part :: "string \<Rightarrow> int option" where
  "exponent_part s =
     (case s of
        [] \<Rightarrow> Some 0
      | c # r \<Rightarrow>
          if c \<noteq> CHR ''e'' \<and> c \<noteq> CHR ''E'' then None
          else
            let neg = (take 1 r = ''-'');
                ds = (if take 1 r = ''-'' \<or> take 1 r = ''+'' then drop 1 r else r)
            in if radix_digits 10 ds
               then Some ((if neg then - 1 else 1) * int (digits_value 10 0 ds))
               else None)"

definition unsigned_decimal :: "string \<Rightarrow> jsnumber" where
  "unsigned_decimal s =
     (if s = ''Infinity'' then NInf True
      else
        let int_part = takeWhile is_digit s;
            r1 = dropWhile is_digit s;
            dot = (take 1 r1 = ''.'');
            frac_part = (if dot then takeWhile is_digit (drop 1 r1) else []);
            r2 = (if dot then dropWhile is_digit (drop 1 r1) else r1)
        in if int_part = [] \<and> frac_part = [] then NNaN
           else case exponent_part r2 of
                  None \<Rightarrow> NNaN
                | Some ex \<Rightarrow>
                    NFin (int (digits_value 10 0 (int_part @ frac_part))) (ex - int (length frac_part)))"

definition negate :: "jsnumber \<Rightarrow> jsnumber" where
  "negate x = (case x of NFin m e \<Rightarrow> NFin (- m) e | NInf p \<Rightarrow> NInf (\<not> p) | NNaN \<Rightarrow> NNaN)"

definition radix_literal :: "nat \<Rightarrow> string \<Rightarrow> jsnumber" where
  "radix_literal radix ds =
     (if radix_digits radix ds then NFin (int (digits_value radix 0 ds)) 0 else NNaN)"

definition StringToNumber :: "string \<Rightarrow> jsnumber" where
  "StringToNumber s0 =
     (let s = str_trim s0 in
      if s = [] then NFin 0 0
      else if take 2 s = ''0x'' \<or> take 2 s = ''0X'' then radix_literal 16 (drop 2 s)
      else if take 2 s = ''0o'' \<or> take 2 s = ''0O'' then radix_literal 8 (drop 2 s)
      else if take 2 s = ''0b'' \<or> take 2 s = ''0B'' then radix_literal 2 (drop 2 s)
      else if take 1 s = ''-'' then negate (unsigned_decimal (drop 1 s))
      else if take 1 s = ''+'' then unsigned_decimal (drop 1 s)
      else unsigned_decimal s)"

text \<open>\<open>ToNumber\<close> of a primitive value.\<close>

definition ToNumber :: "prim \<Rightarrow> jsnumber" where
  "ToNumber v =
     (case v of
        PNull \<Rightarrow> NFin 0 0
      | PBool b \<Rightarrow> NFin (if b then 1 else 0) 0
      | PNum n \<Rightarrow> NFin n 0
      | PStr s \<Rightarrow> StringToNumber s)"

text \<open>
  The sign of the difference \<open>x - y\<close> of two numbers: \<open>-1\<close>, \<open>0\<close> or \<open>1\<close>, and \<open>None\<close>
  when the difference is \<open>NaN\<close> (an operand is \<open>NaN\<close>, or both are the same infinity).
\<close>

definition difference_sign :: "jsnumber \<Rightarrow> jsnumber \<Rightarrow> int option" where
  "difference_sign x y =
     (case (x, y) of
        (NFin m1 e1, NFin m2 e2) \<Rightarrow>
          Some (sgn (m1 * 10 ^ nat (e1 - min e1 e2) - m2 * 10 ^ nat (e2 - min e1 e2)))
      | (NFin _ _, NInf p) \<Rightarrow> Some (if p then - 1 else 1)
      | (NInf p, NFin _ _) \<Rightarrow> Some (if p then 1 else - 1)
      | (NInf p, NInf q) \<Rightarrow> (if p = q then None else Some (if p then 1 else - 1))
      | _ \<Rightarrow> None)"




text \<open>
  \<open>Array.prototype.sort(comparefn)\<close> on an array without holes, the result of the
  comparator read as negative, zero or positive. The standard requires the stable sort
  by the comparator where the comparator is consistent on the elements (it orders them
  as a key does: lemma \<open>array_sort_by_key\<close>), and leaves the order to the implementation
  where it is not (its ties are not transitive). The model is the insertion sort: the
  elements are inserted from the last to the first, each before the first element that
  it does not exceed.
\<close>

fun insert_sorted :: "('a \<Rightarrow> 'a \<Rightarrow> int) \<Rightarrow> 'a \<Rightarrow> 'a list \<Rightarrow> 'a list" where
  "insert_sorted comparefn x [] = [x]"
| "insert_sorted comparefn x (y # ys) =
     (if comparefn x y \<le> 0 then x # y # ys else y # insert_sorted comparefn x ys)"

definition array_sort :: "('a \<Rightarrow> 'a \<Rightarrow> int) \<Rightarrow> 'a list \<Rightarrow> 'a list" where
  "array_sort comparefn xs = foldr (insert_sorted comparefn) xs []"

section \<open>Enumerations (enums.js)\<close>

text \<open>
  An enumeration value object. \<open>ev_cls\<close> is the identity of the value class the object
  is an instance of (\<open>value_cls\<close> of the enumeration that created it: every call of
  \<open>Enum\<close> creates a new class), \<open>ev_name\<close> is the name of its own class and
  \<open>ev_value\<close> its \<open>value\<close> field, a primitive value (\<open>None\<close> when the field was
  never set).
  Within one enumeration names are unique, so the triple identifies the object.
  \<open>JOther\<close> stands for any other object (a function, an array, a class), by its name.
\<close>

record enum_value =
  ev_cls :: nat
  ev_name :: string
  ev_value :: "prim option"

datatype jsval =
    JUndefined
  | JNull
  | JBool bool
  | JNum int
  | JStr string
  | JObj enum_value
  | JOther string

text \<open>
  The enumeration class object: its name, the identity of its value class, the members
  stored as properties \<open>enum_cls[name]\<close>, the \<open>reverse\<close> map (\<open>None\<close> when the
  enumeration was built from an array: the property is never created) in the order of
  its insertions, the \<open>list\<close> array and whether the object has been frozen.
\<close>

record enum_cls =
  e_name :: string
  e_value_cls :: nat
  e_members :: "(string \<times> enum_value) list"
  e_reverse :: "(prim \<times> enum_value) list option"
  e_list :: "enum_value list"
  e_frozen :: bool

datatype error =
    FrozenError string
  | UppercaseError
  | ClassNameError string
  | DuplicateNameError string string
  | DuplicateValueError prim string
  | NotFoundError jsval string
  | TypeError
  | IdNotStringError
  | InvalidPackageIdError string
  | InvalidPackageTypeError string
  | InvalidKeyError string
  | InvalidScriptTypeError string
  | StackTraceNotStringError
  | CaptureError
  | VersionParseError

text \<open>\<open>(a.value ?? 0)\<close>: 0 for an absent and for a \<open>null\<close> value.\<close>

definition value_or_zero :: "enum_value \<Rightarrow> prim" where
  "value_or_zero a =
     (case ev_value a of
        None \<Rightarrow> PNum 0
      | Some v \<Rightarrow> (case v of PNull \<Rightarrow> PNum 0 | _ \<Rightarrow> v))"

text \<open>
  The comparator of \<open>sort_list_by_value\<close>, \<open>(a.value ?? 0) - (b.value ?? 0)\<close>, as the
  sort reads it: the sign of the difference, and 0 when the difference is \<open>NaN\<close> (so
  a value that converts to no number ties with every other).
\<close>

definition compare_values :: "enum_value \<Rightarrow> enum_value \<Rightarrow> int" where
  "compare_values a b =
     (case difference_sign (ToNumber (value_or_zero a)) (ToNumber (value_or_zero b)) of
        None \<Rightarrow> 0
      | Some d \<Rightarrow> d)"

text \<open>\<open>sort_list_by_value()\<close>: \<open>this.list.sort\<close> with that comparator.\<close>

definition sort_list_by_value :: "enum_cls \<Rightarrow> enum_cls" where
  "sort_list_by_value enum_c = enum_c\<lparr>e_list := array_sort compare_values (e_list enum_c)\<rparr>"

text \<open>
  The name must be accepted by \<open>Function("x", `return class ${name} extends x {}`)\<close>
  and be the name of the class it returns: an identifier, or the empty string (an
  anonymous class, whose name is the empty string).
\<close>

definition is_ident_start :: "char \<Rightarrow> bool" where
  "is_ident_start c = (c \<in> set (lower_letters @ upper_letters @ ''_$''))"

definition is_ident_part :: "char \<Rightarrow> bool" where
  "is_ident_part c = (c \<in> set (lower_letters @ upper_letters @ digit_chars @ ''_$''))"

definition is_class_name :: "string \<Rightarrow> bool" where
  "is_class_name nm = (case nm of [] \<Rightarrow> True | c # cs \<Rightarrow> is_ident_start c \<and> list_all is_ident_part cs)"

text \<open>
  \<open>EnumValue(enum_cls, name, value, sort)\<close>. The enumeration is mutated in place, so the
  model returns it next to the result: after an exception it holds what had been stored
  before the \<open>throw\<close>.
\<close>

definition push_value :: "enum_cls \<Rightarrow> enum_value \<Rightarrow> bool \<Rightarrow> (error + enum_value) \<times> enum_cls" where
  "push_value enum_c value_obj srt =
     (let e2 = enum_c\<lparr>e_list := e_list enum_c @ [value_obj]\<rparr>
      in (Inr value_obj, if srt then sort_list_by_value e2 else e2))"

definition EnumValue :: "enum_cls \<Rightarrow> string \<Rightarrow> prim option \<Rightarrow> bool \<Rightarrow> (error + enum_value) \<times> enum_cls" where
  "EnumValue enum_c nm v srt =
     (if e_frozen enum_c then (Inl (FrozenError (e_name enum_c @ ''Enum'')), enum_c)
      else if nm \<noteq> toUpperCase nm then (Inl UppercaseError, enum_c)
      else if \<not> is_class_name nm then (Inl (ClassNameError nm), enum_c)
      else
        let value_obj = \<lparr>ev_cls = e_value_cls enum_c, ev_name = nm, ev_value = v\<rparr> in
        if map_of (e_members enum_c) nm \<noteq> None
        then (Inl (DuplicateNameError nm (e_name enum_c @ ''Enum'')), enum_c)
        else
          let e1 = enum_c\<lparr>e_members := e_members enum_c @ [(nm, value_obj)]\<rparr> in
          (case v of
             None \<Rightarrow> push_value e1 value_obj srt
           | Some x \<Rightarrow>
               (case e_reverse e1 of
                  None \<Rightarrow> (Inl TypeError, e1)
                | Some r \<Rightarrow>
                    if map_of r x \<noteq> None
                    then (Inl (DuplicateValueError x (e_name enum_c @ ''Enum'')), e1)
                    else push_value (e1\<lparr>e_reverse := Some (r @ [(x, value_obj)])\<rparr>) value_obj srt)))"

text \<open>
  The collection: an array of names, or a dictionary from names to values (its own
  enumerable keys in property order; a key may hold \<open>undefined\<close>).
\<close>

datatype collection = Names "string list" | Dict "(string \<times> prim option) list"

text \<open>The construction loop of \<open>Enum\<close>: \<open>EnumValue(enum_cls, key, value, false)\<close> per key.\<close>

fun add_values :: "enum_cls \<Rightarrow> (string \<times> prim option) list \<Rightarrow> error + enum_cls" where
  "add_values enum_c [] = Inr enum_c"
| "add_values enum_c ((k, v) # kvs) =
     (case EnumValue enum_c k v False of
        (Inl err, _) \<Rightarrow> Inl err
      | (Inr _, e') \<Rightarrow> add_values e' kvs)"

definition collection_items :: "collection \<Rightarrow> (string \<times> prim option) list" where
  "collection_items c = (case c of Names ks \<Rightarrow> map (\<lambda>k. (k, None)) ks | Dict kvs \<Rightarrow> kvs)"

text \<open>
  The class object \<open>Enum\<close> creates, before its construction loop: \<open>list\<close> is empty
  and \<open>reverse\<close> is a new map when the collection is not an array. \<open>cls\<close> is the
  identity of the value class the call creates (fresh for every call).
\<close>

definition new_enum_cls :: "nat \<Rightarrow> string \<Rightarrow> bool \<Rightarrow> enum_cls" where
  "new_enum_cls cls nm has_value =
     \<lparr>e_name = nm, e_value_cls = cls, e_members = [],
      e_reverse = (if has_value then Some [] else None), e_list = [], e_frozen = False\<rparr>"

definition has_value :: "collection \<Rightarrow> bool" where
  "has_value coll = (case coll of Names _ \<Rightarrow> False | Dict _ \<Rightarrow> True)"

definition freeze_enum :: "bool \<Rightarrow> enum_cls \<Rightarrow> enum_cls" where
  "freeze_enum freeze enum_c = (if freeze then enum_c\<lparr>e_frozen := True\<rparr> else enum_c)"

text \<open>\<open>Enum(name, collection, freeze)\<close>.\<close>

definition Enum :: "nat \<Rightarrow> string \<Rightarrow> collection \<Rightarrow> bool \<Rightarrow> error + enum_cls" where
  "Enum cls nm coll freeze =
     (case add_values (new_enum_cls cls nm (has_value coll)) (collection_items coll) of
        Inl err \<Rightarrow> Inl err
      | Inr e1 \<Rightarrow> Inr (freeze_enum freeze (sort_list_by_value e1)))"

text \<open>\<open>value instanceof value_cls\<close>.\<close>

definition instanceof :: "jsval \<Rightarrow> nat \<Rightarrow> bool" where
  "instanceof v cls = (case v of JObj m \<Rightarrow> ev_cls m = cls | _ \<Rightarrow> False)"

text \<open>
  \<open>Map.prototype.get\<close> on the reverse map: its keys are the primitive values of the
  members, so \<open>undefined\<close> and objects are keys of no entry.
\<close>

definition prim_of :: "jsval \<Rightarrow> prim option" where
  "prim_of v =
     (case v of
        JNull \<Rightarrow> Some PNull
      | JBool b \<Rightarrow> Some (PBool b)
      | JNum n \<Rightarrow> Some (PNum n)
      | JStr s \<Rightarrow> Some (PStr s)
      | _ \<Rightarrow> None)"

definition reverse_get :: "(prim \<times> enum_value) list \<Rightarrow> jsval \<Rightarrow> enum_value option" where
  "reverse_get r v = (case prim_of v of Some p \<Rightarrow> map_of r p | None \<Rightarrow> None)"

text \<open>
  \<open>get(value, dflt = undefined)\<close>. The second argument is \<open>None\<close> when the caller passes
  none; a default parameter also replaces an explicit \<open>undefined\<close>.
\<close>

definition lookup_name :: "enum_cls \<Rightarrow> jsval \<Rightarrow> enum_value option" where
  "lookup_name enum_c v =
     (case v of JStr s \<Rightarrow> map_of (e_members enum_c) (toUpperCase s) | _ \<Rightarrow> None)"

definition lookup_int :: "(prim \<times> enum_value) list \<Rightarrow> jsval \<Rightarrow> enum_value option" where
  "lookup_int r v =
     (case v of
        JStr s \<Rightarrow> (case parseInt s of Some value_int \<Rightarrow> reverse_get r (JNum value_int) | None \<Rightarrow> None)
      | _ \<Rightarrow> None)"

definition lookup_reverse :: "(prim \<times> enum_value) list \<Rightarrow> jsval \<Rightarrow> enum_value option" where
  "lookup_reverse r v = (case reverse_get r v of Some m \<Rightarrow> Some m | None \<Rightarrow> lookup_int r v)"

definition Enum_get :: "enum_cls \<Rightarrow> jsval \<Rightarrow> jsval option \<Rightarrow> error + jsval" where
  "Enum_get enum_c v dflt_arg =
     (let dflt = (case dflt_arg of None \<Rightarrow> JUndefined | Some d \<Rightarrow> d) in
      if instanceof v (e_value_cls enum_c) then Inr v
      else if lookup_name enum_c v \<noteq> None then Inr (JObj (the (lookup_name enum_c v)))
      else if e_reverse enum_c = None then Inl TypeError
      else if lookup_reverse (the (e_reverse enum_c)) v \<noteq> None
        then Inr (JObj (the (lookup_reverse (the (e_reverse enum_c)) v)))
      else if dflt = JUndefined then Inl (NotFoundError v (e_name enum_c))
      else Inr dflt)"

text \<open>\<open>has(value)\<close>.\<close>

definition Enum_has :: "enum_cls \<Rightarrow> jsval \<Rightarrow> bool" where
  "Enum_has enum_c v = instanceof v (e_value_cls enum_c)"

text \<open>
  The enumerations a program can hold: the results of \<open>Enum\<close>, and what \<open>EnumValue\<close>
  leaves of one (whether it returned or threw).
\<close>

inductive enum_reachable :: "enum_cls \<Rightarrow> bool" where
  from_Enum: "Enum cls nm coll freeze = Inr enum_c \<Longrightarrow> enum_reachable enum_c"
| from_EnumValue: "enum_reachable enum_c \<Longrightarrow> EnumValue enum_c nm v srt = (res, e') \<Longrightarrow> enum_reachable e'"

text \<open>
  The members of an enumeration: the objects of its \<open>list\<close> and those stored under
  their names. \<open>cls_inv\<close>: every member is an instance of the enumeration's value class.
\<close>

definition is_member :: "enum_cls \<Rightarrow> enum_value \<Rightarrow> bool" where
  "is_member enum_c m = (m \<in> set (e_list enum_c) \<or> m \<in> snd ` set (e_members enum_c))"

definition cls_inv :: "enum_cls \<Rightarrow> bool" where
  "cls_inv enum_c = (\<forall>m. is_member enum_c m \<longrightarrow> ev_cls m = e_value_cls enum_c)"






text \<open>Property access \<open>enum_cls[name]\<close> for a member name, as in \<open>VERBOSITY.WARNING\<close>.\<close>

definition enum_member :: "enum_cls \<Rightarrow> string \<Rightarrow> enum_value option" where
  "enum_member enum_c nm = map_of (e_members enum_c) nm"

section \<open>Logging verbosity (log.js, the first file of src/unnamed/part\_001)\<close>

definition MAX_SAFE_INTEGER :: int where
  "MAX_SAFE_INTEGER = 9007199254740991"

definition VERBOSITY_collection :: collection where
  "VERBOSITY_collection = Dict
     [(''ZERO'', Some (PNum 0)), (''TRACE'', Some (PNum 100)), (''DEBUG'', Some (PNum 200)),
      (''INFO'', Some (PNum 300)), (''WARNING'', Some (PNum 400)), (''ERROR'', Some (PNum 500)),
      (''CRITICAL'', Some (PNum (MAX_SAFE_INTEGER - 1))), (''ALWAYS'', Some (PNum MAX_SAFE_INTEGER))]"

text \<open>
  \<open>VERBOSITY = Enum('PackageType', {...})\<close>; its value class has identity 1. The call
  returns (lemma \<open>VERBOSITY_Enum\<close> below), so \<open>projr\<close> reads its result.
\<close>

definition VERBOSITY :: enum_cls where
  "VERBOSITY = projr (Enum 1 ''PackageType'' VERBOSITY_collection True)"

text \<open>
  \<open>verbosity_to_value\<close>: \<open>0\<close> for \<open>null\<close> and \<open>undefined\<close>, otherwise
  \<open>verbosity.value ?? verbosity\<close> (only enumeration values have a \<open>value\<close> property).
\<close>

definition jsval_of :: "prim \<Rightarrow> jsval" where
  "jsval_of p = (case p of PNull \<Rightarrow> JNull | PBool b \<Rightarrow> JBool b | PNum n \<Rightarrow> JNum n | PStr s \<Rightarrow> JStr s)"

definition verbosity_to_value :: "jsval \<Rightarrow> jsval" where
  "verbosity_to_value verbosity =
     (if verbosity = JNull \<or> verbosity = JUndefined then JNum 0
      else case verbosity of
             JObj m \<Rightarrow>
               (case ev_value m of
                  None \<Rightarrow> verbosity
                | Some v \<Rightarrow> if v = PNull then verbosity else jsval_of v)
           | _ \<Rightarrow> verbosity)"

text \<open>
  The getter \<open>Log.verbosity\<close>: \<open>CURRENT_VERBOSITY ?? VERBOSITY.WARNING\<close>. The state is
  the module variable \<open>CURRENT_VERBOSITY\<close>, initially \<open>null\<close>.
\<close>

definition CURRENT_VERBOSITY_init :: jsval where
  "CURRENT_VERBOSITY_init = JNull"

definition Log_verbosity :: "jsval \<Rightarrow> jsval" where
  "Log_verbosity current_verbosity =
     (if current_verbosity = JNull \<or> current_verbosity = JUndefined
      then (case enum_member VERBOSITY ''WARNING'' of Some m \<Rightarrow> JObj m | None \<Rightarrow> JUndefined)
      else current_verbosity)"

definition Log_verbosity_value :: "jsval \<Rightarrow> jsval" where
  "Log_verbosity_value current_verbosity = verbosity_to_value (Log_verbosity current_verbosity)"

text \<open>
  \<open>desired_value >= current_value\<close> for two numbers. \<open>None\<close> stands for a comparison
  with an operand that is not a number, which the model does not evaluate (JavaScript
  converts the operands first).
\<close>

definition js_ge :: "jsval \<Rightarrow> jsval \<Rightarrow> bool option" where
  "js_ge a b = (case (a, b) of (JNum x, JNum y) \<Rightarrow> Some (x \<ge> y) | _ \<Rightarrow> None)"

text \<open>\<open>Log.enabled(verbosity = null)\<close>.\<close>

definition Log_enabled :: "jsval \<Rightarrow> jsval \<Rightarrow> bool option" where
  "Log_enabled current_verbosity verbosity =
     (let verbosity = (if verbosity = JUndefined then JNull else verbosity);
          desired_value = verbosity_to_value verbosity;
          current_value = Log_verbosity_value current_verbosity
      in js_ge desired_value current_value)"

section \<open>Versions (version.js: the second and third files of src/unnamed/part\_001)\<close>

text \<open>
  The parsed version: the object \<open>VERSION\<close> of the first snapshot (lines 269--379) and
  the ten module variables \<open>VERSION_KNOWN\<close>, \<open>VERSION\<close>, \<open>MAJOR_VERSION\<close>, ...,
  \<open>VERSION_WITH_GIT\<close> of the second (lines 380--470). The numeric fields hold what
  \<open>parseInt\<close> returns (\<open>None\<close> for \<open>NaN\<close>).
\<close>

record version_info =
  v_known :: bool
  v_full :: string
  v_major :: "int option"
  v_minor :: "int option"
  v_patch :: "int option"
  v_suffix :: "int option"
  v_meta :: string
  v_git :: string
  v_git_short :: string
  v_full_git :: string

text \<open>A regular expression's \<open>.\<close> matches every code unit but the line terminators.\<close>

definition is_line_terminator :: "char \<Rightarrow> bool" where
  "is_line_terminator c = (c = CHR 0x0A \<or> c = CHR 0x0D)"

text \<open>
  The version pattern \<open>/^([0-9]+)\.([0-9]+)\.([0-9]+).([0-9]+)(.*)$/i\<close>.
  \<open>([0-9]+)\.\<close> at the head of a string: the group is the whole run of digits, since
  the next character must be the dot.
\<close>

definition digits_dot :: "string \<Rightarrow> (string \<times> string) option" where
  "digits_dot s =
     (let ds = takeWhile is_digit s in
      case dropWhile is_digit s of
        [] \<Rightarrow> None
      | c # rest \<Rightarrow> if ds \<noteq> [] \<and> c = CHR ''.'' then Some (ds, rest) else None)"

text \<open>
  \<open>([0-9]+).([0-9]+)(.*)$\<close> with the third group of exactly \<open>k\<close> digits (\<open>k\<close> at most
  the length of the run of digits at the head of \<open>s\<close>): the separator is any one
  character but a line terminator, the fourth group is the run of digits after it, and
  the rest must hold no line terminator.
\<close>

definition patch_suffix_at :: "nat \<Rightarrow> string \<Rightarrow> (string \<times> string \<times> string) option" where
  "patch_suffix_at k s =
     (case drop k s of
        [] \<Rightarrow> None
      | c # rest \<Rightarrow>
          if is_line_terminator c \<or> takeWhile is_digit rest = []
             \<or> list_ex is_line_terminator (dropWhile is_digit rest)
          then None
          else Some (take k s, takeWhile is_digit rest, dropWhile is_digit rest))"

text \<open>The greedy third group: the longest run first, then shorter ones (backtracking).\<close>

fun patch_suffix :: "nat \<Rightarrow> string \<Rightarrow> (string \<times> string \<times> string) option" where
  "patch_suffix 0 s = None"
| "patch_suffix (Suc k) s =
     (case patch_suffix_at (Suc k) s of Some r \<Rightarrow> Some r | None \<Rightarrow> patch_suffix k s)"

text \<open>The groups 1 to 5 of the match, or \<open>None\<close> when the string does not match.\<close>

definition version_match :: "string \<Rightarrow> (string \<times> string \<times> string \<times> string \<times> string) option" where
  "version_match s =
     (case digits_dot s of
        None \<Rightarrow> None
      | Some (g1, r1) \<Rightarrow>
          (case digits_dot r1 of
             None \<Rightarrow> None
           | Some (g2, r2) \<Rightarrow>
               (case patch_suffix (length (takeWhile is_digit r2)) r2 of
                  None \<Rightarrow> None
                | Some (g3, g4, g5) \<Rightarrow> Some (g1, g2, g3, g4, g5))))"

text \<open>\<open>(git.length >= 40) ? git.slice(0,7) : git\<close>.\<close>

definition git_short_of :: "string \<Rightarrow> string" where
  "git_short_of git = (if length git \<ge> 40 then take 7 git else git)"

text \<open>
  First snapshot, \<open>_parse_manifest_version(version, git_hash)\<close> (a name of the theory
  cannot start with an underscore). \<open>version\<close> is \<open>None\<close>
  when the argument is not a string, \<open>git_hash\<close> is \<open>None\<close> for \<open>null\<close> and
  \<open>undefined\<close>. When the pattern does not match the function throws (building the
  message reads the undeclared \<open>version_str\<close>, so the exception is a ReferenceError).
\<close>

definition parse_manifest_version_of :: "string option \<Rightarrow> string option \<Rightarrow> error + version_info" where
  "parse_manifest_version_of version git_hash =
     (let known = (version \<noteq> None);
          version = (case version of None \<Rightarrow> ''1.99.99.99'' | Some v \<Rightarrow> v)
      in case version_match version of
           None \<Rightarrow> Inl VersionParseError
         | Some (g1, g2, g3, g4, g5) \<Rightarrow>
             let git = (case git_hash of None \<Rightarrow> ''unknown'' | Some g \<Rightarrow> g)
             in Inr \<lparr>v_known = known, v_full = version,
                     v_major = parseInt g1, v_minor = parseInt g2,
                     v_patch = parseInt g3, v_suffix = parseInt g4,
                     v_meta = g5, v_git = git, v_git_short = git_short_of git,
                     v_full_git = version @ '' ('' @ git_short_of git @ '')''\<rparr>)"

text \<open>The initial values of the second snapshot's module variables.\<close>

definition VERSION_init_s2 :: version_info where
  "VERSION_init_s2 =
     \<lparr>v_known = False, v_full = ''1.99.99.99'', v_major = Some 1, v_minor = Some 99,
      v_patch = Some 99, v_suffix = Some 99, v_meta = [], v_git = ''unknown'',
      v_git_short = ''unknown'', v_full_git = ''1.99.99.99 (unknown)''\<rparr>"

text \<open>
  \<open>version_at_least(major, minor=0, patch=0, suffix=0)\<close>, the same text in both
  snapshots (lines 366--379 and 457--470). \<open>==\<close>, \<open>>\<close> and \<open>>=\<close> between a stored
  component and a number: all false when the component is \<open>NaN\<close>.
\<close>

definition num_eq :: "int option \<Rightarrow> int \<Rightarrow> bool" where
  "num_eq a b = (a = Some b)"

definition num_gt :: "int option \<Rightarrow> int \<Rightarrow> bool" where
  "num_gt a b = (case a of None \<Rightarrow> False | Some x \<Rightarrow> x > b)"

definition num_ge :: "int option \<Rightarrow> int \<Rightarrow> bool" where
  "num_ge a b = (case a of None \<Rightarrow> False | Some x \<Rightarrow> x \<ge> b)"

definition version_at_least :: "version_info \<Rightarrow> int \<Rightarrow> int option \<Rightarrow> int option \<Rightarrow> int option \<Rightarrow> bool" where
  "version_at_least VERSION major minor_arg patch_arg suffix_arg =
     (let minor = (case minor_arg of None \<Rightarrow> 0 | Some x \<Rightarrow> x);
          patch = (case patch_arg of None \<Rightarrow> 0 | Some x \<Rightarrow> x);
          suffix = (case suffix_arg of None \<Rightarrow> 0 | Some x \<Rightarrow> x)
      in if num_eq (v_major VERSION) major then
           if num_eq (v_minor VERSION) minor then
             if num_eq (v_patch VERSION) patch then num_eq (v_suffix VERSION) suffix
             else num_ge (v_patch VERSION) patch
           else num_gt (v_minor VERSION) minor
         else num_gt (v_major VERSION) major)"

section \<open>The host platform\<close>

text \<open>
  The objects of the host that the code reads. A package object stands for an entry of
  \<open>game.modules\<close>, for \<open>game.data.system\<close> and \<open>game.data.world\<close>, and for the
  \<open>data\<close> object (the manifest) of one of these; each field is \<open>None\<close> when the property
  is \<open>undefined\<close> or \<open>null\<close>. \<open>pk_active\<close> is the truthiness of \<open>active\<close>,
  \<open>pk_git_version\<close> is \<open>flags?.git_version\<close>. Identifiers and versions are strings.
\<close>

record compatibility =
  c_minimum :: "string option"
  c_verified :: "string option"
  c_maximum :: "string option"

datatype js_package = Package
  (pk_id: "string option")
  (pk_active: bool)
  (pk_title: "string option")
  (pk_version: "string option")
  (pk_git_version: "string option")
  (pk_compatibility: "compatibility option")
  (pk_minimumCoreVersion: "string option")
  (pk_compatibleCoreVersion: "string option")
  (pk_data: "js_package option")

record game_data =
  gd_version :: "string option"
  gd_system :: "js_package option"
  gd_world :: "js_package option"

text \<open>
  The global \<open>game\<close>: \<open>g_modules\<close> is the map \<open>game.modules\<close> (keys in insertion order),
  \<open>g_release_version\<close> is \<open>game.release?.version\<close>.
\<close>

record game =
  g_version :: "string option"
  g_release_version :: "string option"
  g_data :: "game_data option"
  g_modules :: "(string \<times> js_package) list option"

text \<open>
  What the code reads from its environment: the global \<open>game\<close> (\<open>None\<close> when it is
  \<open>undefined\<close>), the text \<open>Error().stack\<close> yields (\<open>None\<close> when it is not a string),
  the host's \<open>isNewerVersion\<close>, and the constant \<open>PACKAGE_ID\<close> of \<open>consts.js\<close>, which
  is not among the sources.
\<close>

record host =
  h_game :: "game option"
  h_stack :: "string option"
  h_isNewerVersion :: "string \<Rightarrow> string \<Rightarrow> bool"
  h_PACKAGE_ID :: string

text \<open>Optional chains on \<open>game\<close>.\<close>

definition game_modules :: "host \<Rightarrow> (string \<times> js_package) list option" where
  "game_modules h = (case h_game h of None \<Rightarrow> None | Some g \<Rightarrow> g_modules g)"

definition game_system :: "host \<Rightarrow> js_package option" where
  "game_system h =
     (case h_game h of
        None \<Rightarrow> None
      | Some g \<Rightarrow> (case g_data g of None \<Rightarrow> None | Some d \<Rightarrow> gd_system d))"

definition game_world :: "host \<Rightarrow> js_package option" where
  "game_world h =
     (case h_game h of
        None \<Rightarrow> None
      | Some g \<Rightarrow> (case g_data g of None \<Rightarrow> None | Some d \<Rightarrow> gd_world d))"

text \<open>\<open>game?.data?.system?.id\<close> and \<open>game?.data?.world?.id\<close>.\<close>

definition game_system_id :: "host \<Rightarrow> string option" where
  "game_system_id h = (case game_system h of None \<Rightarrow> None | Some p \<Rightarrow> pk_id p)"

definition game_world_id :: "host \<Rightarrow> string option" where
  "game_world_id h = (case game_world h of None \<Rightarrow> None | Some p \<Rightarrow> pk_id p)"


text \<open>
  The first lines of the \<open>try\<close> block of \<open>parse_manifest_version\<close> (both snapshots): the
  manifest \<open>game.modules.get(PACKAGE_ID).data\<close>, or the exception thrown on the way
  (a TypeError when \<open>game\<close> is \<open>undefined\<close>).
\<close>

definition package_manifest :: "host \<Rightarrow> error + js_package" where
  "package_manifest h =
     (case h_game h of
        None \<Rightarrow> Inl TypeError
      | Some g \<Rightarrow>
          (case g_modules g of
             None \<Rightarrow> Inl VersionParseError
           | Some ms \<Rightarrow>
               if ms = [] then Inl VersionParseError
               else
                 (case map_of ms (h_PACKAGE_ID h) of
                    None \<Rightarrow> Inl VersionParseError
                  | Some mdl \<Rightarrow>
                      (case pk_data mdl of
                         None \<Rightarrow> Inl VersionParseError
                       | Some manifest \<Rightarrow> Inr manifest))))"

text \<open>
  First snapshot, \<open>parse_manifest_version()\<close>: the state is \<open>VERSION\<close>; every exception
  of the \<open>try\<close> block is caught and leaves it unchanged.
\<close>

definition parse_manifest_version :: "host \<Rightarrow> version_info \<Rightarrow> version_info" where
  "parse_manifest_version h VERSION =
     (if v_known VERSION then VERSION
      else
        case package_manifest h of
          Inl e \<Rightarrow> VERSION
        | Inr manifest \<Rightarrow>
            let git_hash = pk_git_version manifest;
                version_str = pk_version manifest
            in if version_str = None \<or> version_str = Some [] then VERSION
               else
                 (case parse_manifest_version_of version_str git_hash of
                    Inl e \<Rightarrow> VERSION
                  | Inr v \<Rightarrow> v))"

text \<open>
  Second snapshot, \<open>parse_manifest_version()\<close>: the state is the module variables. The
  revision is stored before the version string is read, so it stays stored when a later
  step throws.
\<close>

definition strip_dash :: "string \<Rightarrow> string" where
  "strip_dash s = (case s of c # cs \<Rightarrow> if c = CHR ''-'' then cs else s | [] \<Rightarrow> s)"

definition parse_manifest_version_s2 :: "host \<Rightarrow> version_info \<Rightarrow> version_info" where
  "parse_manifest_version_s2 h V =
     (if v_known V then V
      else
        case package_manifest h of
          Inl e \<Rightarrow> V
        | Inr manifest \<Rightarrow>
            let git = (case pk_git_version manifest of None \<Rightarrow> ''unknown'' | Some g \<Rightarrow> g);
                V1 = V\<lparr>v_git := git, v_git_short := git_short_of git\<rparr>;
                version_str = pk_version manifest
            in if version_str = None \<or> version_str = Some [] then V1
               else
                 (case version_match (case version_str of Some s \<Rightarrow> s | None \<Rightarrow> []) of
                    None \<Rightarrow> V1
                  | Some (g1, g2, g3, g4, g5) \<Rightarrow>
                      V1\<lparr>v_full := (case version_str of Some s \<Rightarrow> s | None \<Rightarrow> []),
                         v_major := parseInt g1, v_minor := parseInt g2,
                         v_patch := parseInt g3, v_suffix := parseInt g4,
                         v_meta := strip_dash g5,
                         v_full_git := (case version_str of Some s \<Rightarrow> s | None \<Rightarrow> [])
                                         @ '' ('' @ git_short_of git @ '')'',
                         v_known := True\<rparr>))"

section \<open>Package information (package\_info.js)\<close>

text \<open>
  src/package\_info.js holds two snapshots of the file: lines 1--479 (the first) and
  lines 480--907 (the second). What is the same text in both is modelled once; where
  they differ the second snapshot's definition carries the suffix \<open>_s2\<close>.
\<close>

text \<open>
  \<open>PACKAGE_TYPES = Enum('PackageType', [...])\<close>; its value class has identity 0. The
  call returns (lemma \<open>PACKAGE_TYPES_Enum\<close> below), so \<open>projr\<close> reads its result.
  \<open>KEY_SEPARATOR\<close> of the first snapshot is \<open>MAIN_KEY_SEPARATOR\<close> of the second.
\<close>

definition PACKAGE_TYPES :: enum_cls where
  "PACKAGE_TYPES =
     projr (Enum 0 ''PackageType'' (Names [''UNKNOWN'', ''MODULE'', ''SYSTEM'', ''WORLD'']) True)"

definition KEY_SEPARATOR :: char where
  "KEY_SEPARATOR = CHR '':''"

definition KEY_SEPARATORS :: "char list" where
  "KEY_SEPARATORS = [CHR '':'', CHR ''~'']"

text \<open>\<open>UNKNOWN_ID = '\u00ABunknown\u00BB'\<close>: code units \<open>0xAB\<close> and \<open>0xBB\<close> around the word.\<close>

definition UNKNOWN_ID :: string where
  "UNKNOWN_ID = CHR 0xAB # ''unknown'' @ [CHR 0xBB]"

text \<open>\<open>PACKAGE_ID_REGEX.test(id)\<close> with \<open>/^[a-z0-9_-]+$/i\<close>.\<close>

definition PACKAGE_ID_REGEX_test :: "string \<Rightarrow> bool" where
  "PACKAGE_ID_REGEX_test s =
     (s \<noteq> [] \<and> list_all (\<lambda>c. c \<in> set (lower_letters @ upper_letters @ digit_chars @ ''_-'')) s)"

subsection \<open>The stack trace pattern\<close>

text \<open>
  \<open>STACK_TRACE_REGEX = /^.*?\/(worlds|systems|modules)\/(.+?)(?=\/).*?$/igm\<close>.
  With the flag \<open>m\<close> and \<open>.\<close> not matching line terminators, a match lies within one
  line and is the whole line; \<open>matchAll\<close> yields at most one match per line.
\<close>

fun js_lines :: "string \<Rightarrow> string list" where
  "js_lines [] = [[]]"
| "js_lines (c # cs) =
     (if is_line_terminator c then [] # js_lines cs
      else (case js_lines cs of [] \<Rightarrow> [[c]] | w # ws \<Rightarrow> (c # w) # ws))"

text \<open>
  One alternative \<open>d\<close> of the first group at \<open>r\<close>, the text after a slash: \<open>d\<close> in any
  case (flag \<open>i\<close>), a slash, then the second group: one character and the shortest run
  after it that a slash follows. The groups are returned as they stand in the text.
\<close>

definition match_dir :: "string \<Rightarrow> string \<Rightarrow> (string \<times> string) option" where
  "match_dir d r =
     (if toLowerCase (take (length d) r) \<noteq> d then None
      else
        case drop (length d) r of
          c0 # c # rest \<Rightarrow>
            if c0 = CHR ''/'' \<and> dropWhile (\<lambda>x. x \<noteq> CHR ''/'') rest \<noteq> []
            then Some (take (length d) r, c # takeWhile (\<lambda>x. x \<noteq> CHR ''/'') rest)
            else None
        | _ \<Rightarrow> None)"

text \<open>\<open>\/(worlds|systems|modules)\/(.+?)(?=\/)\<close> at the head of a string.\<close>

definition match_at :: "string \<Rightarrow> (string \<times> string) option" where
  "match_at s =
     (case s of
        [] \<Rightarrow> None
      | c # r \<Rightarrow>
          if c \<noteq> CHR ''/'' then None
          else if match_dir ''worlds'' r \<noteq> None then match_dir ''worlds'' r
          else if match_dir ''systems'' r \<noteq> None then match_dir ''systems'' r
          else match_dir ''modules'' r)"

text \<open>The lazy prefix \<open>^.*?\<close>: the leftmost position of the line where the rest matches.\<close>

fun match_line :: "string \<Rightarrow> (string \<times> string) option" where
  "match_line [] = None"
| "match_line (c # cs) =
     (case match_at (c # cs) of Some m \<Rightarrow> Some m | None \<Rightarrow> match_line cs)"

text \<open>\<open>stack_trace.matchAll(STACK_TRACE_REGEX)\<close>: \<open>(match[0], match[1], match[2])\<close> per match.\<close>

definition stack_trace_matches :: "string \<Rightarrow> (string \<times> string \<times> string) list" where
  "stack_trace_matches stack_trace =
     concat (map (\<lambda>l. case match_line l of None \<Rightarrow> [] | Some (ty, nm) \<Rightarrow> [(l, ty, nm)])
                 (js_lines stack_trace))"

subsection \<open>Enumerating the packages of a stack trace\<close>

text \<open>Property access \<open>enum_cls.NAME\<close> for a member name.\<close>

definition enum_prop :: "enum_cls \<Rightarrow> string \<Rightarrow> jsval" where
  "enum_prop enum_c nm = (case enum_member enum_c nm of Some m \<Rightarrow> JObj m | None \<Rightarrow> JUndefined)"

text \<open>Truthiness.\<close>

definition truthy :: "jsval \<Rightarrow> bool" where
  "truthy v =
     (case v of
        JUndefined \<Rightarrow> False
      | JNull \<Rightarrow> False
      | JBool b \<Rightarrow> b
      | JNum n \<Rightarrow> n \<noteq> 0
      | JStr s \<Rightarrow> s \<noteq> []
      | JObj _ \<Rightarrow> True
      | JOther _ \<Rightarrow> True)"

text \<open>
  The argument \<open>ignore_ids\<close>: absent, a string, an array of strings, or a \<open>Set\<close> of
  strings. \<open>ignore_ids && (name === ignore_ids || ignore_ids?.includes?.(name))\<close>: on a
  string \<open>includes\<close> is the substring test, on an array it is membership, and a \<open>Set\<close>
  has no \<open>includes\<close>.
\<close>

datatype ignore_ids =
    IgnoreNone
  | IgnoreString string
  | IgnoreArray "string list"
  | IgnoreSet "string list"

definition ignored :: "ignore_ids \<Rightarrow> string \<Rightarrow> bool" where
  "ignored ign nm =
     (case ign of
        IgnoreNone \<Rightarrow> False
      | IgnoreString s \<Rightarrow> s \<noteq> [] \<and> (nm = s \<or> str_includes s nm)
      | IgnoreArray xs \<Rightarrow> nm \<in> set xs
      | IgnoreSet xs \<Rightarrow> False)"

text \<open>
  The body of the loop over the matches, up to the call of \<open>matchFn\<close>: the match is
  skipped (\<open>continue\<close>), passed to \<open>matchFn\<close> with its identifier and type, or the loop
  throws.
\<close>

datatype step = Skip | Call string jsval string | Throw error

definition classify_match :: "host \<Rightarrow> ignore_ids \<Rightarrow> string \<times> string \<times> string \<Rightarrow> step" where
  "classify_match h ign m =
     (case m of (m0, ty, nm) \<Rightarrow>
        if ty = [] \<or> nm = [] then Skip
        else if ty = ''worlds'' then
          (if game_world_id h \<noteq> None \<and> game_world_id h \<noteq> Some [] \<and> game_world_id h \<noteq> Some nm
           then Skip
           else Call nm (enum_prop PACKAGE_TYPES ''WORLD'') m0)
        else if ty = ''systems'' then
          (if game_system_id h \<noteq> None \<and> game_system_id h \<noteq> Some [] \<and> game_system_id h \<noteq> Some nm
           then Skip
           else Call nm (enum_prop PACKAGE_TYPES ''SYSTEM'') m0)
        else if ty = ''modules'' then
          (if (case game_modules h of None \<Rightarrow> False | Some ms \<Rightarrow> map_of ms nm = None) then Skip
           else if ignored ign nm then Skip
           else Call nm (enum_prop PACKAGE_TYPES ''MODULE'') m0)
        else Throw (InvalidScriptTypeError ty))"

text \<open>
  The loop, with the state \<open>s\<close> that \<open>matchFn\<close> reads and writes: \<open>matchFn\<close> returns
  its new state and whether its result was other than \<open>false\<close>, or throws. The result is
  what \<open>foreach_package_in_stack_trace\<close> returns (\<open>False\<close> when aborted early) and the
  final state.
\<close>

fun foreach_loop ::
  "host \<Rightarrow> ignore_ids \<Rightarrow> ('s \<Rightarrow> string \<Rightarrow> jsval \<Rightarrow> string \<Rightarrow> error + bool \<times> 's) \<Rightarrow> 's \<Rightarrow>
   (string \<times> string \<times> string) list \<Rightarrow> error + bool \<times> 's" where
  "foreach_loop h ign matchFn s [] = Inr (True, s)"
| "foreach_loop h ign matchFn s (m # ms) =
     (case classify_match h ign m of
        Skip \<Rightarrow> foreach_loop h ign matchFn s ms
      | Throw e \<Rightarrow> Inl e
      | Call match_id match_type m0 \<Rightarrow>
          (case matchFn s match_id match_type m0 of
             Inl e \<Rightarrow> Inl e
           | Inr (matchRes, s') \<Rightarrow>
               if \<not> matchRes then Inr (False, s') else foreach_loop h ign matchFn s' ms))"

text \<open>
  First snapshot (lines 41--122). A supplied \<open>stack_trace\<close> must be a string; without one
  the stack is captured, and the function returns when that is not a string. An empty
  text returns at once.
\<close>

definition foreach_package_in_stack_trace ::
  "host \<Rightarrow> ('s \<Rightarrow> string \<Rightarrow> jsval \<Rightarrow> string \<Rightarrow> error + bool \<times> 's) \<Rightarrow> 's \<Rightarrow> jsval \<Rightarrow> ignore_ids \<Rightarrow>
   error + bool \<times> 's" where
  "foreach_package_in_stack_trace h matchFn s stack_trace ign =
     (case stack_trace of
        JUndefined \<Rightarrow>
          (case h_stack h of
             None \<Rightarrow> Inr (True, s)
           | Some t \<Rightarrow>
               if t = [] then Inr (True, s)
               else foreach_loop h ign matchFn s (stack_trace_matches t))
      | JStr t \<Rightarrow>
          if t = [] then Inr (True, s)
          else foreach_loop h ign matchFn s (stack_trace_matches t)
      | _ \<Rightarrow> Inl StackTraceNotStringError)"

text \<open>
  Second snapshot (lines 515--585): \<open>if(!stack_trace || typeof stack_trace !== 'string')
  throw new Error("Could not collect stack trace.")\<close>, for the supplied as for the
  captured text.
\<close>

definition foreach_package_in_stack_trace_s2 ::
  "host \<Rightarrow> ('s \<Rightarrow> string \<Rightarrow> jsval \<Rightarrow> string \<Rightarrow> error + bool \<times> 's) \<Rightarrow> 's \<Rightarrow> jsval \<Rightarrow> ignore_ids \<Rightarrow>
   error + bool \<times> 's" where
  "foreach_package_in_stack_trace_s2 h matchFn s stack_trace ign =
     (let stack_trace =
            (if stack_trace = JUndefined
             then (case h_stack h of None \<Rightarrow> JUndefined | Some t \<Rightarrow> JStr t)
             else stack_trace)
      in case stack_trace of
           JStr t \<Rightarrow>
             if t = [] then Inl CaptureError
             else foreach_loop h ign matchFn s (stack_trace_matches t)
         | _ \<Rightarrow> Inl CaptureError)"

subsection \<open>The class PackageInfo\<close>

text \<open>
  An instance: its fields \<open>id\<close> and \<open>type\<close> (\<open>undefined\<close> until a method stores them)
  and whether \<open>Object.freeze\<close> has been applied. The file is in strict mode, so a write
  to a frozen instance throws a TypeError.
\<close>

record package_info =
  p_id :: jsval
  p_type :: jsval
  p_frozen :: bool

definition new_package_info :: package_info where
  "new_package_info = \<lparr>p_id = JUndefined, p_type = JUndefined, p_frozen = False\<rparr>"

text \<open>\<open>is_valid_id(id)\<close>.\<close>

definition is_valid_id :: "jsval \<Rightarrow> bool" where
  "is_valid_id ident = (case ident of JStr s \<Rightarrow> s \<noteq> [] \<and> PACKAGE_ID_REGEX_test s | _ \<Rightarrow> False)"

text \<open>\<open>set_unknown()\<close>.\<close>

definition set_unknown :: "package_info \<Rightarrow> error + package_info" where
  "set_unknown obj =
     (if p_frozen obj then Inl TypeError
      else Inr (obj\<lparr>p_id := JStr UNKNOWN_ID, p_type := enum_prop PACKAGE_TYPES ''UNKNOWN''\<rparr>))"

text \<open>\<open>equals(obj)\<close> for another instance of the class.\<close>

definition equals :: "package_info \<Rightarrow> package_info \<Rightarrow> bool" where
  "equals this obj = (p_id obj = p_id this \<and> p_type obj = p_type this)"

text \<open>
  \<open>detect_type()\<close>, called on an unfrozen instance whose \<open>id\<close> has been stored; it
  returns the instance with its \<open>type\<close> written.
\<close>

definition detect_type :: "host \<Rightarrow> package_info \<Rightarrow> package_info" where
  "detect_type h obj =
     (case game_modules h of
        None \<Rightarrow>
          if p_id obj = JStr (h_PACKAGE_ID h)
          then obj\<lparr>p_type := enum_prop PACKAGE_TYPES ''MODULE''\<rparr>
          else obj\<lparr>p_type := enum_prop PACKAGE_TYPES ''UNKNOWN''\<rparr>
      | Some ms \<Rightarrow>
          if (case p_id obj of
                JStr s \<Rightarrow> (case map_of ms s of None \<Rightarrow> False | Some mdl \<Rightarrow> pk_active mdl)
              | _ \<Rightarrow> False)
          then obj\<lparr>p_type := enum_prop PACKAGE_TYPES ''MODULE''\<rparr>
          else if (case game_system_id h of None \<Rightarrow> False | Some i \<Rightarrow> p_id obj = JStr i)
          then obj\<lparr>p_type := enum_prop PACKAGE_TYPES ''SYSTEM''\<rparr>
          else if (case game_world_id h of None \<Rightarrow> False | Some i \<Rightarrow> p_id obj = JStr i)
          then obj\<lparr>p_type := enum_prop PACKAGE_TYPES ''WORLD''\<rparr>
          else obj\<lparr>p_type := enum_prop PACKAGE_TYPES ''UNKNOWN''\<rparr>)"

text \<open>
  The end of \<open>set(id, type, freeze)\<close>, from the validation of the identifier on:
  \<open>id\<close> is a string other than \<open>UNKNOWN_ID\<close> and \<open>type\<close> is not \<open>undefined\<close>.
\<close>

definition set_store :: "host \<Rightarrow> package_info \<Rightarrow> string \<Rightarrow> jsval \<Rightarrow> bool \<Rightarrow> error + package_info" where
  "set_store h obj s ty freeze =
     (if \<not> is_valid_id (JStr s) then Inl (InvalidPackageIdError s)
      else if ty \<noteq> JNull \<and> \<not> Enum_has PACKAGE_TYPES ty then Inl (InvalidPackageTypeError s)
      else if p_frozen obj then Inl TypeError
      else
        let obj1 = obj\<lparr>p_id := JStr s, p_type := ty\<rparr>;
            obj2 = (if \<not> truthy ty then detect_type h obj1 else obj1)
        in Inr (if freeze then obj2\<lparr>p_frozen := True\<rparr> else obj2))"

text \<open>
  \<open>IGNORE_PACKAGE_IDS = PACKAGE_ID\<close>, and the first match the loop passes to a
  \<open>matchFn\<close> that returns \<open>false\<close>: \<open>detect_id\<close> calls \<open>set\<close> on it and stops.
\<close>

definition IGNORE_PACKAGE_IDS :: "host \<Rightarrow> ignore_ids" where
  "IGNORE_PACKAGE_IDS h = IgnoreString (h_PACKAGE_ID h)"

definition record_match ::
  "(string \<times> jsval) option \<Rightarrow> string \<Rightarrow> jsval \<Rightarrow> string \<Rightarrow> error + bool \<times> (string \<times> jsval) option" where
  "record_match s match_id match_type m0 = Inr (False, Some (match_id, match_type))"

definition first_package :: "host \<Rightarrow> jsval \<Rightarrow> error + (string \<times> jsval) option" where
  "first_package h stack_trace =
     (case foreach_package_in_stack_trace h record_match None stack_trace (IGNORE_PACKAGE_IDS h) of
        Inl e \<Rightarrow> Inl e
      | Inr (_, r) \<Rightarrow> Inr r)"

definition first_package_s2 :: "host \<Rightarrow> jsval \<Rightarrow> error + (string \<times> jsval) option" where
  "first_package_s2 h stack_trace =
     (case foreach_package_in_stack_trace_s2 h record_match None stack_trace (IGNORE_PACKAGE_IDS h) of
        Inl e \<Rightarrow> Inl e
      | Inr (_, r) \<Rightarrow> Inr r)"

text \<open>\<open>parse_key(key)\<close> (first snapshot): \<open>PACKAGE_TYPES.get\<close> may throw.\<close>

definition parse_key :: "string \<Rightarrow> error + jsval \<times> jsval" where
  "parse_key key =
     (case split_on KEY_SEPARATOR key of
        [t, i] \<Rightarrow>
          (case Enum_get PACKAGE_TYPES (JStr t) None of
             Inl e \<Rightarrow> Inl e
           | Inr ty \<Rightarrow> Inr (JStr i, ty))
      | _ \<Rightarrow> Inr (JNull, JNull))"

text \<open>
  The methods \<open>set\<close>, \<open>from_key\<close> and \<open>detect_id\<close> call each other. Their recursion
  ends because \<open>from_key\<close> passes on a proper part of its key, and \<open>detect_id\<close> a
  non-empty identifier with a type; the lemmas below are what the termination proofs use.
\<close>

lemma split_on_length:
  "sum_list (map length (split_on sep s)) + length (split_on sep s) = Suc (length s)"
  by (induction s) (auto split: list.splits)

lemma split_on_two: "split_on sep s = [a, b] \<Longrightarrow> length b < length s"
  using split_on_length[of sep s] by simp

lemma PACKAGE_TYPES_Enum:
  "Enum 0 ''PackageType'' (Names [''UNKNOWN'', ''MODULE'', ''SYSTEM'', ''WORLD'']) True =
   Inr \<lparr>e_name = ''PackageType'', e_value_cls = 0,
        e_members =
          [(''UNKNOWN'', \<lparr>ev_cls = 0, ev_name = ''UNKNOWN'', ev_value = None\<rparr>),
           (''MODULE'', \<lparr>ev_cls = 0, ev_name = ''MODULE'', ev_value = None\<rparr>),
           (''SYSTEM'', \<lparr>ev_cls = 0, ev_name = ''SYSTEM'', ev_value = None\<rparr>),
           (''WORLD'', \<lparr>ev_cls = 0, ev_name = ''WORLD'', ev_value = None\<rparr>)],
        e_reverse = None,
        e_list =
          [\<lparr>ev_cls = 0, ev_name = ''UNKNOWN'', ev_value = None\<rparr>,
           \<lparr>ev_cls = 0, ev_name = ''MODULE'', ev_value = None\<rparr>,
           \<lparr>ev_cls = 0, ev_name = ''SYSTEM'', ev_value = None\<rparr>,
           \<lparr>ev_cls = 0, ev_name = ''WORLD'', ev_value = None\<rparr>],
        e_frozen = True\<rparr>"
  by code_simp

lemma PACKAGE_TYPES_eq:
  "PACKAGE_TYPES =
   \<lparr>e_name = ''PackageType'', e_value_cls = 0,
        e_members =
          [(''UNKNOWN'', \<lparr>ev_cls = 0, ev_name = ''UNKNOWN'', ev_value = None\<rparr>),
           (''MODULE'', \<lparr>ev_cls = 0, ev_name = ''MODULE'', ev_value = None\<rparr>),
           (''SYSTEM'', \<lparr>ev_cls = 0, ev_name = ''SYSTEM'', ev_value = None\<rparr>),
           (''WORLD'', \<lparr>ev_cls = 0, ev_name = ''WORLD'', ev_value = None\<rparr>)],
        e_reverse = None,
        e_list =
          [\<lparr>ev_cls = 0, ev_name = ''UNKNOWN'', ev_value = None\<rparr>,
           \<lparr>ev_cls = 0, ev_name = ''MODULE'', ev_value = None\<rparr>,
           \<lparr>ev_cls = 0, ev_name = ''SYSTEM'', ev_value = None\<rparr>,
           \<lparr>ev_cls = 0, ev_name = ''WORLD'', ev_value = None\<rparr>],
        e_frozen = True\<rparr>"
  unfolding PACKAGE_TYPES_def PACKAGE_TYPES_Enum by simp

lemma PT_props:
  "enum_prop PACKAGE_TYPES ''UNKNOWN'' = JObj \<lparr>ev_cls = 0, ev_name = ''UNKNOWN'', ev_value = None\<rparr>"
  "enum_prop PACKAGE_TYPES ''MODULE'' = JObj \<lparr>ev_cls = 0, ev_name = ''MODULE'', ev_value = None\<rparr>"
  "enum_prop PACKAGE_TYPES ''SYSTEM'' = JObj \<lparr>ev_cls = 0, ev_name = ''SYSTEM'', ev_value = None\<rparr>"
  "enum_prop PACKAGE_TYPES ''WORLD'' = JObj \<lparr>ev_cls = 0, ev_name = ''WORLD'', ev_value = None\<rparr>"
  by (simp_all add: enum_prop_def enum_member_def PACKAGE_TYPES_eq)

lemma classify_Call:
  "classify_match h ign m = Call i ty m0 \<Longrightarrow> i \<noteq> [] \<and> ty \<noteq> JNull \<and> ty \<noteq> JUndefined"
  by (cases m) (auto simp: classify_match_def PT_props split: if_splits)

lemma foreach_loop_record:
  "foreach_loop h ign record_match None ms = Inr (b, Some (i, ty)) \<Longrightarrow> i \<noteq> [] \<and> ty \<noteq> JNull \<and> ty \<noteq> JUndefined"
proof (induction ms)
  case Nil
  then show ?case by simp
next
  case (Cons m ms)
  show ?case
  proof (cases "classify_match h ign m")
    case Skip
    with Cons show ?thesis by simp
  next
    case (Call i' ty' m0)
    with Cons.prems have "i' = i" "ty' = ty" by (simp_all add: record_match_def)
    with classify_Call[OF Call] show ?thesis by simp
  next
    case (Throw e)
    with Cons.prems show ?thesis by simp
  qed
qed

lemma first_package_Some:
  "first_package h st = Inr (Some (i, ty)) \<Longrightarrow> i \<noteq> [] \<and> ty \<noteq> JNull \<and> ty \<noteq> JUndefined"
  unfolding first_package_def foreach_package_in_stack_trace_def
  by (auto split: sum.splits jsval.splits option.splits if_splits dest: foreach_loop_record)

lemma first_package_s2_Some:
  "first_package_s2 h st = Inr (Some (i, ty)) \<Longrightarrow> i \<noteq> [] \<and> ty \<noteq> JNull \<and> ty \<noteq> JUndefined"
  unfolding first_package_s2_def foreach_package_in_stack_trace_s2_def Let_def
  by (auto split: sum.splits jsval.splits option.splits if_splits dest: foreach_loop_record)

text \<open>
  First snapshot: \<open>set(id = null, type = null, freeze = true)\<close>,
  \<open>from_key(key, fail = true)\<close> and \<open>detect_id(stack_trace = undefined)\<close>. Each returns
  the instance as the method leaves it, \<open>from_key\<close> with its result.
\<close>

function PackageInfo_set :: "host \<Rightarrow> package_info \<Rightarrow> jsval \<Rightarrow> jsval \<Rightarrow> bool \<Rightarrow> error + package_info"
  and from_key :: "host \<Rightarrow> package_info \<Rightarrow> string \<Rightarrow> bool \<Rightarrow> error + bool \<times> package_info"
  and detect_id :: "host \<Rightarrow> package_info \<Rightarrow> jsval \<Rightarrow> error + package_info"
where
  "PackageInfo_set h obj id_arg type_arg freeze =
     (if \<not> truthy id_arg then detect_id h obj JUndefined
      else
        case id_arg of
          JStr s \<Rightarrow>
            if s = UNKNOWN_ID then set_unknown obj
            else if type_arg = JNull \<or> type_arg = JUndefined then
              (case from_key h obj s False of
                 Inl e \<Rightarrow> Inl e
               | Inr (done, obj') \<Rightarrow> if done then Inr obj' else set_store h obj s JNull freeze)
            else set_store h obj s type_arg freeze
        | _ \<Rightarrow> Inl IdNotStringError)"
| "from_key h obj key fail =
     (case parse_key key of
        Inl e \<Rightarrow> Inl e
      | Inr (ident, ty) \<Rightarrow>
          if \<not> truthy ident \<or> \<not> truthy ty
          then (if fail then Inl (InvalidKeyError key) else Inr (False, obj))
          else
            (case PackageInfo_set h obj ident ty True of
               Inl e \<Rightarrow> Inl e
             | Inr obj' \<Rightarrow> Inr (True, obj')))"
| "detect_id h obj stack_trace =
     (case set_unknown obj of
        Inl e \<Rightarrow> Inl e
      | Inr obj1 \<Rightarrow>
          (case first_package h stack_trace of
             Inl e \<Rightarrow> Inl e
           | Inr None \<Rightarrow> Inr obj1
           | Inr (Some (match_id, match_type)) \<Rightarrow>
               PackageInfo_set h obj1 (JStr match_id) match_type True))"
  by pat_completeness auto
termination
  apply (relation "measure (\<lambda>x. case x of
            Inl (h, obj, id_arg, type_arg, freeze) \<Rightarrow>
              (if \<not> truthy id_arg then 2
               else if type_arg = JNull \<or> type_arg = JUndefined
                 then 4 + 2 * (case id_arg of JStr s \<Rightarrow> length s | _ \<Rightarrow> 0)
               else 0)
          | Inr (Inl (h, obj, key, fail)) \<Rightarrow> 3 + 2 * length key
          | Inr (Inr (h, obj, stack_trace)) \<Rightarrow> 1)")
  apply simp
  apply simp
  apply simp
  apply (auto simp: truthy_def split: jsval.splits)[1]
  apply (auto dest!: first_package_Some simp: truthy_def)
  done

declare PackageInfo_set.simps [simp del] from_key.simps [simp del] detect_id.simps [simp del]

text \<open>
  Second snapshot: \<open>from_key\<close> tries the separators of \<open>KEY_SEPARATORS\<close> in turn and
  keeps the last split it made (\<open>None\<close>: no separator, \<open>split\<close> is \<open>undefined\<close>).
\<close>

fun split_key :: "char list \<Rightarrow> string \<Rightarrow> string list option" where
  "split_key [] key = None"
| "split_key [sep] key = Some (split_on sep key)"
| "split_key (sep # seps) key =
     (if length (split_on sep key) = 2 then Some (split_on sep key) else split_key seps key)"

text \<open>
  \<open>PACKAGE_TYPES[split[0]]\<close>: the property of the class object under any name. A member
  name gives the member; \<open>arguments\<close> and \<open>caller\<close> throw on a class; another property
  the class has or inherits gives that object; every other name gives \<open>undefined\<close>.
\<close>

definition other_class_props :: "string list" where
  "other_class_props =
     [''length'', ''name'', ''prototype'', ''get'', ''has'', ''toString'', ''value_cls'',
      ''sort_list_by_value'', ''list'', ''apply'', ''bind'', ''call'', ''constructor'',
      ''hasOwnProperty'', ''isPrototypeOf'', ''propertyIsEnumerable'', ''toLocaleString'',
      ''valueOf'', ''__proto__'', ''__defineGetter__'', ''__defineSetter__'',
      ''__lookupGetter__'', ''__lookupSetter__'']"

definition class_prop :: "enum_cls \<Rightarrow> string \<Rightarrow> error + jsval" where
  "class_prop enum_c nm =
     (case enum_member enum_c nm of
        Some m \<Rightarrow> Inr (JObj m)
      | None \<Rightarrow>
          if nm = ''arguments'' \<or> nm = ''caller'' then Inl TypeError
          else if nm \<in> set other_class_props \<or> (nm = ''reverse'' \<and> e_reverse enum_c \<noteq> None)
          then Inr (JOther nm)
          else Inr JUndefined)"

lemma split_key_two: "split_key seps key = Some [a, b] \<Longrightarrow> length b < length key"
  by (induction seps key rule: split_key.induct) (auto dest: split_on_two split: if_splits)

function PackageInfo_set_s2 :: "host \<Rightarrow> package_info \<Rightarrow> jsval \<Rightarrow> jsval \<Rightarrow> bool \<Rightarrow> error + package_info"
  and from_key_s2 :: "host \<Rightarrow> package_info \<Rightarrow> string \<Rightarrow> bool \<Rightarrow> error + bool \<times> package_info"
  and detect_id_s2 :: "host \<Rightarrow> package_info \<Rightarrow> jsval \<Rightarrow> error + package_info"
where
  "PackageInfo_set_s2 h obj id_arg type_arg freeze =
     (if \<not> truthy id_arg then detect_id_s2 h obj JUndefined
      else
        case id_arg of
          JStr s \<Rightarrow>
            if s = UNKNOWN_ID then set_unknown obj
            else if type_arg = JNull \<or> type_arg = JUndefined then
              (case from_key_s2 h obj s False of
                 Inl e \<Rightarrow> Inl e
               | Inr (done, obj') \<Rightarrow> if done then Inr obj' else set_store h obj s JNull freeze)
            else set_store h obj s type_arg freeze
        | _ \<Rightarrow> Inl IdNotStringError)"
| "from_key_s2 h obj key fail =
     (case split_key KEY_SEPARATORS key of
        None \<Rightarrow> Inl TypeError
      | Some [t, i] \<Rightarrow>
          (case class_prop PACKAGE_TYPES t of
             Inl e \<Rightarrow> Inl e
           | Inr ty \<Rightarrow>
               (case PackageInfo_set_s2 h obj (JStr i) ty True of
                  Inl e \<Rightarrow> Inl e
                | Inr obj' \<Rightarrow> Inr (True, obj')))
      | Some _ \<Rightarrow> if fail then Inl (InvalidKeyError key) else Inr (False, obj))"
| "detect_id_s2 h obj stack_trace =
     (case set_unknown obj of
        Inl e \<Rightarrow> Inl e
      | Inr obj1 \<Rightarrow>
          (case first_package_s2 h stack_trace of
             Inl e \<Rightarrow> Inl e
           | Inr None \<Rightarrow> Inr obj1
           | Inr (Some (match_id, match_type)) \<Rightarrow>
               PackageInfo_set_s2 h obj1 (JStr match_id) match_type True))"
  by pat_completeness auto
termination
  apply (relation "measure (\<lambda>x. case x of
            Inl (h, obj, id_arg, type_arg, freeze) \<Rightarrow>
              (if \<not> truthy id_arg then 2
               else if type_arg = JNull \<or> type_arg = JUndefined
                 then 4 + 2 * (case id_arg of JStr s \<Rightarrow> length s | _ \<Rightarrow> 0)
               else 0)
          | Inr (Inl (h, obj, key, fail)) \<Rightarrow> 3 + 2 * length key
          | Inr (Inr (h, obj, stack_trace)) \<Rightarrow> 1)")
      apply simp
     apply simp
    apply simp
   apply (auto dest!: split_key_two simp: truthy_def)[1]
  apply (auto dest!: first_package_s2_Some simp: truthy_def)
  done

declare PackageInfo_set_s2.simps [simp del] from_key_s2.simps [simp del] detect_id_s2.simps [simp del]

text \<open>\<open>constructor(id = null, type = null) { this.set(id, type); }\<close> in both snapshots.\<close>

definition PackageInfo :: "host \<Rightarrow> jsval \<Rightarrow> jsval \<Rightarrow> error + package_info" where
  "PackageInfo h id_arg type_arg = PackageInfo_set h new_package_info id_arg type_arg True"

definition PackageInfo_s2 :: "host \<Rightarrow> jsval \<Rightarrow> jsval \<Rightarrow> error + package_info" where
  "PackageInfo_s2 h id_arg type_arg = PackageInfo_set_s2 h new_package_info id_arg type_arg True"

subsection \<open>collect\_all\<close>

text \<open>
  The \<open>matchFn\<close> of \<open>collect_all\<close>; its state is the \<open>Set\<close> of keys, in insertion order.
  \<open>include_fn\<close> is \<open>None\<close> when \<open>undefined\<close>; its result is read for truthiness:
  \<open>include_fn !== undefined && !include_fn(id, type, match)\<close>.
\<close>

definition excluded ::
  "(string \<Rightarrow> jsval \<Rightarrow> string \<Rightarrow> bool) option \<Rightarrow> string \<Rightarrow> jsval \<Rightarrow> string \<Rightarrow> bool" where
  "excluded include_fn match_id match_type m0 =
     (case include_fn of None \<Rightarrow> False | Some f \<Rightarrow> \<not> f match_id match_type m0)"

text \<open>The key \<open>`${type.lower}${KEY_SEPARATOR}${id}`\<close> of a member \<open>type\<close> and an identifier.\<close>

definition key_of :: "enum_value \<Rightarrow> string \<Rightarrow> string" where
  "key_of t i = toLowerCase (ev_name t) @ [KEY_SEPARATOR] @ i"

definition collect_matchFn ::
  "(string \<Rightarrow> jsval \<Rightarrow> string \<Rightarrow> bool) option \<Rightarrow> string list \<Rightarrow> string \<Rightarrow> jsval \<Rightarrow> string \<Rightarrow>
   error + bool \<times> string list" where
  "collect_matchFn include_fn keys match_id match_type m0 =
     (case match_type of
        JObj t \<Rightarrow>
          if key_of t match_id \<in> set keys then Inr (True, keys)
          else if excluded include_fn match_id match_type m0 then Inr (True, keys)
          else Inr (True, keys @ [key_of t match_id])
      | _ \<Rightarrow> Inl TypeError)"

text \<open>\<open>for(const key of set) modules.push(new PackageInfo(key));\<close>\<close>

fun construct_all :: "host \<Rightarrow> string list \<Rightarrow> error + package_info list" where
  "construct_all h [] = Inr []"
| "construct_all h (key # keys) =
     (case PackageInfo h (JStr key) JUndefined of
        Inl e \<Rightarrow> Inl e
      | Inr p \<Rightarrow> (case construct_all h keys of Inl e \<Rightarrow> Inl e | Inr ps \<Rightarrow> Inr (p # ps)))"

fun construct_all_s2 :: "host \<Rightarrow> string list \<Rightarrow> error + package_info list" where
  "construct_all_s2 h [] = Inr []"
| "construct_all_s2 h (key # keys) =
     (case PackageInfo_s2 h (JStr key) JUndefined of
        Inl e \<Rightarrow> Inl e
      | Inr p \<Rightarrow> (case construct_all_s2 h keys of Inl e \<Rightarrow> Inl e | Inr ps \<Rightarrow> Inr (p # ps)))"

text \<open>\<open>collect_all(stack_trace, include_fn, ignore_ids)\<close>, first and second snapshot.\<close>

definition collect_all ::
  "host \<Rightarrow> jsval \<Rightarrow> (string \<Rightarrow> jsval \<Rightarrow> string \<Rightarrow> bool) option \<Rightarrow> ignore_ids \<Rightarrow> error + package_info list" where
  "collect_all h stack_trace include_fn ign =
     (case foreach_package_in_stack_trace h (collect_matchFn include_fn) [] stack_trace ign of
        Inl e \<Rightarrow> Inl e
      | Inr (_, keys) \<Rightarrow> construct_all h keys)"

definition collect_all_s2 ::
  "host \<Rightarrow> jsval \<Rightarrow> (string \<Rightarrow> jsval \<Rightarrow> string \<Rightarrow> bool) option \<Rightarrow> ignore_ids \<Rightarrow> error + package_info list" where
  "collect_all_s2 h stack_trace include_fn ign =
     (case foreach_package_in_stack_trace_s2 h (collect_matchFn include_fn) [] stack_trace ign of
        Inl e \<Rightarrow> Inl e
      | Inr (_, keys) \<Rightarrow> construct_all_s2 h keys)"

subsection \<open>Compatibility with the core version\<close>













text \<open>The members of \<open>PACKAGE_TYPES\<close> that the loop over a stack trace passes on.\<close>

definition trace_types :: "enum_value set" where
  "trace_types = {\<lparr>ev_cls = 0, ev_name = ''WORLD'', ev_value = None\<rparr>,
                  \<lparr>ev_cls = 0, ev_name = ''SYSTEM'', ev_value = None\<rparr>,
                  \<lparr>ev_cls = 0, ev_name = ''MODULE'', ev_value = None\<rparr>}"

section \<open>Example inputs\<close>

text \<open>
  Concrete inputs at which the theorems below are instantiated: a 40-character revision
  hash, the manifest of the package and a host whose module registry holds it.
\<close>

definition example_hash :: string where
  "example_hash = ''abcdef0123456789abcdef0123456789abcdef01''"

definition example_manifest :: js_package where
  "example_manifest =
     Package (Some ''lib-wrapper'') True (Some ''libWrapper'') (Some ''10.291.2.0'')
       (Some example_hash) None None None None"

definition example_host :: host where
  "example_host =
     \<lparr>h_game = Some \<lparr>g_version = Some ''10.291'', g_release_version = None, g_data = None,
                      g_modules = Some [(''lib-wrapper'',
                         Package (Some ''lib-wrapper'') True (Some ''libWrapper'') None None None None None
                           (Some example_manifest))]\<rparr>,
      h_stack = None, h_isNewerVersion = (\<lambda>a b. False), h_PACKAGE_ID = ''lib-wrapper''\<rparr>"

text \<open>A host without the global \<open>game\<close> and without a captured stack.\<close>

definition no_game_host :: host where
  "no_game_host = \<lparr>h_game = None, h_stack = None, h_isNewerVersion = (\<lambda>a b. False),
                     h_PACKAGE_ID = ''lib-wrapper''\<rparr>"

text \<open>
  Stack traces: two frames of the module \<open>alpha\<close> and one of a system; the same two frames
  followed by a frame whose identifier is not a valid package id; and followed by a frame
  whose root directory is written \<open>Modules\<close>.
\<close>

definition alpha_line_x :: string where
  "alpha_line_x = ''    at foo (http://localhost:30000/modules/alpha/x.js:10:5)''"

definition alpha_line_y :: string where
  "alpha_line_y = ''    at bar (http://localhost:30000/modules/alpha/y.js:1:1)''"

definition example_trace :: string where
  "example_trace =
     ''Error'' @ [CHR 0x0A] @ alpha_line_x @ [CHR 0x0A] @ alpha_line_y @ [CHR 0x0A]
     @ ''    at baz (http://localhost:30000/systems/dnd5e/module/z.js:1:1)''"

definition invalid_id_trace :: string where
  "invalid_id_trace =
     alpha_line_x @ [CHR 0x0A] @ alpha_line_y @ [CHR 0x0A]
     @ ''    at baz (http://localhost:30000/modules/bad.id/z.js:1:1)''"

definition upper_case_trace :: string where
  "upper_case_trace =
     alpha_line_x @ [CHR 0x0A] @ alpha_line_y @ [CHR 0x0A]
     @ ''    at baz (http://localhost:30000/Modules/beta/z.js:1:1)''"





section \<open>Properties of the enumerations\<close>

lemma set_insert_sorted [simp]: "set (insert_sorted comparefn x xs) = insert x (set xs)"
  by (induction xs) auto

lemma set_array_sort [simp]: "set (array_sort comparefn xs) = set xs"
  unfolding array_sort_def by (induction xs) auto








lemma push_value_effect:
  "push_value enum_c vo srt = (res, e') \<Longrightarrow>
     res = Inr vo \<and> e_value_cls e' = e_value_cls enum_c \<and> e_name e' = e_name enum_c \<and>
     e_members e' = e_members enum_c \<and> e_reverse e' = e_reverse enum_c \<and>
     e_frozen e' = e_frozen enum_c \<and>
     e_list e' = (if srt then array_sort compare_values (e_list enum_c @ [vo]) else e_list enum_c @ [vo])"
  by (cases srt) (auto simp: push_value_def sort_list_by_value_def Let_def)

lemma EnumValue_effect:
  assumes "EnumValue enum_c nm v srt = (res, e')"
  shows "e_value_cls e' = e_value_cls enum_c \<and>
         set (e_list e') \<subseteq> insert \<lparr>ev_cls = e_value_cls enum_c, ev_name = nm, ev_value = v\<rparr> (set (e_list enum_c)) \<and>
         set (e_members e') \<subseteq> insert (nm, \<lparr>ev_cls = e_value_cls enum_c, ev_name = nm, ev_value = v\<rparr>) (set (e_members enum_c))"
proof -
  let ?vo = "\<lparr>ev_cls = e_value_cls enum_c, ev_name = nm, ev_value = v\<rparr>"
  let ?e1 = "enum_c\<lparr>e_members := e_members enum_c @ [(nm, ?vo)]\<rparr>"
  consider (err0) "e' = enum_c"
    | (err1) "e' = ?e1"
    | (push1) "push_value ?e1 ?vo srt = (res, e')"
    | (push2) r x where "e_reverse enum_c = Some r" "push_value (?e1\<lparr>e_reverse := Some (r @ [(x, ?vo)])\<rparr>) ?vo srt = (res, e')"
    using assms unfolding EnumValue_def Let_def
    by (simp split: if_splits option.splits)
  then show ?thesis
  proof cases
    case err0 then show ?thesis by auto
  next
    case err1 then show ?thesis by auto
  next
    case push1
    from push_value_effect[OF this] show ?thesis by (cases srt) auto
  next
    case push2
    from push_value_effect[OF push2(2)] show ?thesis by (cases srt) auto
  qed
qed

lemma EnumValue_cls_inv:
  assumes "cls_inv enum_c" and "EnumValue enum_c nm v srt = (res, e')"
  shows "cls_inv e'"
  unfolding cls_inv_def is_member_def
proof (intro allI impI)
  fix m assume m: "m \<in> set (e_list e') \<or> m \<in> snd ` set (e_members e')"
  let ?vo = "\<lparr>ev_cls = e_value_cls enum_c, ev_name = nm, ev_value = v\<rparr>"
  from EnumValue_effect[OF assms(2)] have c: "e_value_cls e' = e_value_cls enum_c"
    and l: "set (e_list e') \<subseteq> insert ?vo (set (e_list enum_c))"
    and p: "set (e_members e') \<subseteq> insert (nm, ?vo) (set (e_members enum_c))" by simp_all
  from m l p have "m = ?vo \<or> is_member enum_c m"
    unfolding is_member_def by force
  then show "ev_cls m = e_value_cls e'"
    using assms(1) c unfolding cls_inv_def by auto
qed

lemma add_values_cls_inv:
  "cls_inv enum_c \<Longrightarrow> add_values enum_c kvs = Inr e' \<Longrightarrow> cls_inv e'"
proof (induction kvs arbitrary: enum_c)
  case Nil
  then show ?case by simp
next
  case (Cons kv kvs)
  obtain k v where kv: "kv = (k, v)" by (cases kv)
  obtain res e1 where ev: "EnumValue enum_c k v False = (res, e1)" by (cases "EnumValue enum_c k v False")
  from Cons.prems(2) kv ev have rest: "add_values e1 kvs = Inr e'"
    by (cases res) auto
  from EnumValue_cls_inv[OF Cons.prems(1) ev] have "cls_inv e1" .
  from Cons.IH[OF this rest] show ?case .
qed

lemma is_member_sort [simp]: "is_member (sort_list_by_value e1) m = is_member e1 m"
  by (simp add: is_member_def sort_list_by_value_def)

lemma is_member_freeze [simp]: "is_member (freeze_enum freeze e1) m = is_member e1 m"
  by (cases freeze) (simp_all add: is_member_def freeze_enum_def)

lemma value_cls_sort [simp]: "e_value_cls (sort_list_by_value e1) = e_value_cls e1"
  by (simp add: sort_list_by_value_def)

lemma value_cls_freeze [simp]: "e_value_cls (freeze_enum freeze e1) = e_value_cls e1"
  by (cases freeze) (simp_all add: freeze_enum_def)

lemma Enum_result:
  assumes "Enum cls nm coll freeze = Inr enum_c"
  obtains e1 where "add_values (new_enum_cls cls nm (has_value coll)) (collection_items coll) = Inr e1"
    and "enum_c = freeze_enum freeze (sort_list_by_value e1)"
  using assms unfolding Enum_def
  by (cases "add_values (new_enum_cls cls nm (has_value coll)) (collection_items coll)") simp_all

lemma Enum_cls_inv:
  assumes a: "Enum cls nm coll freeze = Inr enum_c" shows "cls_inv enum_c"
proof -
  let ?e0 = "new_enum_cls cls nm (has_value coll)"
  have i0: "cls_inv ?e0" by (simp add: cls_inv_def is_member_def new_enum_cls_def)
  from a obtain e1 where e1: "add_values ?e0 (collection_items coll) = Inr e1"
    and r: "enum_c = freeze_enum freeze (sort_list_by_value e1)"
    by (rule Enum_result)
  from add_values_cls_inv[OF i0 e1] have "cls_inv e1" .
  then show ?thesis unfolding r by (simp add: cls_inv_def)
qed

lemma reachable_cls_inv: "enum_reachable enum_c \<Longrightarrow> cls_inv enum_c"
proof (induction rule: enum_reachable.induct)
  case (from_Enum cls nm coll freeze enum_c)
  then show ?case by (rule Enum_cls_inv)
next
  case (from_EnumValue enum_c nm v srt res e')
  then show ?case using EnumValue_cls_inv by blast
qed

lemma VERBOSITY_Enum:
  "Enum 1 ''PackageType'' VERBOSITY_collection True =
   Inr \<lparr>e_name = ''PackageType'', e_value_cls = 1,
        e_members =
          [(''ZERO'', \<lparr>ev_cls = 1, ev_name = ''ZERO'', ev_value = Some (PNum 0)\<rparr>),
           (''TRACE'', \<lparr>ev_cls = 1, ev_name = ''TRACE'', ev_value = Some (PNum 100)\<rparr>),
           (''DEBUG'', \<lparr>ev_cls = 1, ev_name = ''DEBUG'', ev_value = Some (PNum 200)\<rparr>),
           (''INFO'', \<lparr>ev_cls = 1, ev_name = ''INFO'', ev_value = Some (PNum 300)\<rparr>),
           (''WARNING'', \<lparr>ev_cls = 1, ev_name = ''WARNING'', ev_value = Some (PNum 400)\<rparr>),
           (''ERROR'', \<lparr>ev_cls = 1, ev_name = ''ERROR'', ev_value = Some (PNum 500)\<rparr>),
           (''CRITICAL'', \<lparr>ev_cls = 1, ev_name = ''CRITICAL'', ev_value = Some (PNum 9007199254740990)\<rparr>),
           (''ALWAYS'', \<lparr>ev_cls = 1, ev_name = ''ALWAYS'', ev_value = Some (PNum 9007199254740991)\<rparr>)],
        e_reverse =
          Some
           [(PNum 0, \<lparr>ev_cls = 1, ev_name = ''ZERO'', ev_value = Some (PNum 0)\<rparr>),
            (PNum 100, \<lparr>ev_cls = 1, ev_name = ''TRACE'', ev_value = Some (PNum 100)\<rparr>),
            (PNum 200, \<lparr>ev_cls = 1, ev_name = ''DEBUG'', ev_value = Some (PNum 200)\<rparr>),
            (PNum 300, \<lparr>ev_cls = 1, ev_name = ''INFO'', ev_value = Some (PNum 300)\<rparr>),
            (PNum 400, \<lparr>ev_cls = 1, ev_name = ''WARNING'', ev_value = Some (PNum 400)\<rparr>),
            (PNum 500, \<lparr>ev_cls = 1, ev_name = ''ERROR'', ev_value = Some (PNum 500)\<rparr>),
            (PNum 9007199254740990, \<lparr>ev_cls = 1, ev_name = ''CRITICAL'', ev_value = Some (PNum 9007199254740990)\<rparr>),
            (PNum 9007199254740991, \<lparr>ev_cls = 1, ev_name = ''ALWAYS'', ev_value = Some (PNum 9007199254740991)\<rparr>)],
        e_list =
          [\<lparr>ev_cls = 1, ev_name = ''ZERO'', ev_value = Some (PNum 0)\<rparr>,
           \<lparr>ev_cls = 1, ev_name = ''TRACE'', ev_value = Some (PNum 100)\<rparr>,
           \<lparr>ev_cls = 1, ev_name = ''DEBUG'', ev_value = Some (PNum 200)\<rparr>,
           \<lparr>ev_cls = 1, ev_name = ''INFO'', ev_value = Some (PNum 300)\<rparr>,
           \<lparr>ev_cls = 1, ev_name = ''WARNING'', ev_value = Some (PNum 400)\<rparr>,
           \<lparr>ev_cls = 1, ev_name = ''ERROR'', ev_value = Some (PNum 500)\<rparr>,
           \<lparr>ev_cls = 1, ev_name = ''CRITICAL'', ev_value = Some (PNum 9007199254740990)\<rparr>,
           \<lparr>ev_cls = 1, ev_name = ''ALWAYS'', ev_value = Some (PNum 9007199254740991)\<rparr>],
        e_frozen = True\<rparr>"
  by code_simp

lemma VERBOSITY_Inr: "Enum 1 ''PackageType'' VERBOSITY_collection True = Inr VERBOSITY"
  by (simp only: VERBOSITY_def VERBOSITY_Enum sum.sel)

lemma PACKAGE_TYPES_Inr:
  "Enum 0 ''PackageType'' (Names [''UNKNOWN'', ''MODULE'', ''SYSTEM'', ''WORLD'']) True = Inr PACKAGE_TYPES"
  by (simp only: PACKAGE_TYPES_def PACKAGE_TYPES_Enum sum.sel)

lemma VERBOSITY_reachable: "enum_reachable VERBOSITY"
  by (rule enum_reachable.from_Enum[OF VERBOSITY_Inr])

lemma PACKAGE_TYPES_reachable: "enum_reachable PACKAGE_TYPES"
  by (rule enum_reachable.from_Enum[OF PACKAGE_TYPES_Inr])

lemma VERBOSITY_WARNING:
  "enum_member VERBOSITY ''WARNING'' = Some \<lparr>ev_cls = 1, ev_name = ''WARNING'', ev_value = Some (PNum 400)\<rparr>"
  unfolding VERBOSITY_def VERBOSITY_Enum by (simp add: enum_member_def)

text \<open>
  C4. For every enumeration \<open>E\<close> (built by \<open>Enum\<close>, and extended by \<open>EnumValue\<close> or
  not) and every member \<open>m\<close> of \<open>E\<close>, \<open>E.get(m)\<close> returns \<open>m\<close> itself, whatever the
  default: the pass-through identity law.
\<close>

theorem C4_lookup_member_is_identity:
  "enum_reachable enum_c \<Longrightarrow> is_member enum_c m \<Longrightarrow> Enum_get enum_c (JObj m) dflt = Inr (JObj m)"
  using reachable_cls_inv[of enum_c]
  by (simp add: cls_inv_def Enum_get_def instanceof_def Let_def)

theorem C4_lookup_member_is_identity_witness:
  "enum_reachable VERBOSITY
   \<and> is_member VERBOSITY \<lparr>ev_cls = 1, ev_name = ''WARNING'', ev_value = Some (PNum 400)\<rparr>
   \<and> Enum_get VERBOSITY (JObj \<lparr>ev_cls = 1, ev_name = ''WARNING'', ev_value = Some (PNum 400)\<rparr>) None
       = Inr (JObj \<lparr>ev_cls = 1, ev_name = ''WARNING'', ev_value = Some (PNum 400)\<rparr>)"
proof -
  have m: "is_member VERBOSITY \<lparr>ev_cls = 1, ev_name = ''WARNING'', ev_value = Some (PNum 400)\<rparr>"
    unfolding VERBOSITY_def VERBOSITY_Enum by (simp add: is_member_def)
  from C4_lookup_member_is_identity[OF VERBOSITY_reachable m, of None] VERBOSITY_reachable m
  show ?thesis by simp
qed

lemma VERBOSITY_eq:
  "VERBOSITY =
   \<lparr>e_name = ''PackageType'', e_value_cls = 1,
        e_members =
          [(''ZERO'', \<lparr>ev_cls = 1, ev_name = ''ZERO'', ev_value = Some (PNum 0)\<rparr>),
           (''TRACE'', \<lparr>ev_cls = 1, ev_name = ''TRACE'', ev_value = Some (PNum 100)\<rparr>),
           (''DEBUG'', \<lparr>ev_cls = 1, ev_name = ''DEBUG'', ev_value = Some (PNum 200)\<rparr>),
           (''INFO'', \<lparr>ev_cls = 1, ev_name = ''INFO'', ev_value = Some (PNum 300)\<rparr>),
           (''WARNING'', \<lparr>ev_cls = 1, ev_name = ''WARNING'', ev_value = Some (PNum 400)\<rparr>),
           (''ERROR'', \<lparr>ev_cls = 1, ev_name = ''ERROR'', ev_value = Some (PNum 500)\<rparr>),
           (''CRITICAL'', \<lparr>ev_cls = 1, ev_name = ''CRITICAL'', ev_value = Some (PNum 9007199254740990)\<rparr>),
           (''ALWAYS'', \<lparr>ev_cls = 1, ev_name = ''ALWAYS'', ev_value = Some (PNum 9007199254740991)\<rparr>)],
        e_reverse =
          Some
           [(PNum 0, \<lparr>ev_cls = 1, ev_name = ''ZERO'', ev_value = Some (PNum 0)\<rparr>),
            (PNum 100, \<lparr>ev_cls = 1, ev_name = ''TRACE'', ev_value = Some (PNum 100)\<rparr>),
            (PNum 200, \<lparr>ev_cls = 1, ev_name = ''DEBUG'', ev_value = Some (PNum 200)\<rparr>),
            (PNum 300, \<lparr>ev_cls = 1, ev_name = ''INFO'', ev_value = Some (PNum 300)\<rparr>),
            (PNum 400, \<lparr>ev_cls = 1, ev_name = ''WARNING'', ev_value = Some (PNum 400)\<rparr>),
            (PNum 500, \<lparr>ev_cls = 1, ev_name = ''ERROR'', ev_value = Some (PNum 500)\<rparr>),
            (PNum 9007199254740990, \<lparr>ev_cls = 1, ev_name = ''CRITICAL'', ev_value = Some (PNum 9007199254740990)\<rparr>),
            (PNum 9007199254740991, \<lparr>ev_cls = 1, ev_name = ''ALWAYS'', ev_value = Some (PNum 9007199254740991)\<rparr>)],
        e_list =
          [\<lparr>ev_cls = 1, ev_name = ''ZERO'', ev_value = Some (PNum 0)\<rparr>,
           \<lparr>ev_cls = 1, ev_name = ''TRACE'', ev_value = Some (PNum 100)\<rparr>,
           \<lparr>ev_cls = 1, ev_name = ''DEBUG'', ev_value = Some (PNum 200)\<rparr>,
           \<lparr>ev_cls = 1, ev_name = ''INFO'', ev_value = Some (PNum 300)\<rparr>,
           \<lparr>ev_cls = 1, ev_name = ''WARNING'', ev_value = Some (PNum 400)\<rparr>,
           \<lparr>ev_cls = 1, ev_name = ''ERROR'', ev_value = Some (PNum 500)\<rparr>,
           \<lparr>ev_cls = 1, ev_name = ''CRITICAL'', ev_value = Some (PNum 9007199254740990)\<rparr>,
           \<lparr>ev_cls = 1, ev_name = ''ALWAYS'', ev_value = Some (PNum 9007199254740991)\<rparr>],
        e_frozen = True\<rparr>"
  by (simp only: VERBOSITY_def VERBOSITY_Enum sum.sel)

lemma upper_nonexistent: "toUpperCase ''nonexistent'' = ''NONEXISTENT''"
  by code_simp

lemma parseInt_nonexistent: "parseInt ''nonexistent'' = None"
  by code_simp

lemma VERBOSITY_miss:
  "e_reverse VERBOSITY \<noteq> None"
  "\<not> instanceof (JStr ''nonexistent'') (e_value_cls VERBOSITY)"
  "lookup_name VERBOSITY (JStr ''nonexistent'') = None"
  "lookup_reverse (the (e_reverse VERBOSITY)) (JStr ''nonexistent'') = None"
  by (simp_all add: VERBOSITY_eq instanceof_def lookup_name_def lookup_reverse_def lookup_int_def
        reverse_get_def prim_of_def upper_nonexistent parseInt_nonexistent)

lemma PACKAGE_TYPES_miss:
  "e_reverse PACKAGE_TYPES = None"
  "\<not> instanceof (JStr ''nonexistent'') (e_value_cls PACKAGE_TYPES)"
  "lookup_name PACKAGE_TYPES (JStr ''nonexistent'') = None"
  by (simp_all add: PACKAGE_TYPES_eq instanceof_def lookup_name_def upper_nonexistent)

text \<open>
  C2, as amended. For every enumeration \<open>E\<close> that has a reverse map (one built from a
  dictionary) and every argument \<open>k\<close> that is not an instance of its value class and
  matches no member name (after upper-casing), no underlying value and no integer-parsed
  value: \<open>E.get(k, d)\<close> returns \<open>d\<close> for every default \<open>d\<close> other than \<open>undefined\<close>;
  with no default, and with \<open>undefined\<close> passed as the default, it fails with the
  not-found error that names the enumeration and \<open>k\<close>.
\<close>

theorem C2_lookup_miss:
  assumes "e_reverse enum_c = Some r"
    and "\<not> instanceof k (e_value_cls enum_c)"
    and "\<forall>s. k = JStr s \<longrightarrow> map_of (e_members enum_c) (toUpperCase s) = None"
    and "\<forall>p. prim_of k = Some p \<longrightarrow> map_of r p = None"
    and "\<forall>s n. k = JStr s \<longrightarrow> parseInt s = Some n \<longrightarrow> map_of r (PNum n) = None"
  shows "Enum_get enum_c k None = Inl (NotFoundError k (e_name enum_c))
     \<and> Enum_get enum_c k (Some JUndefined) = Inl (NotFoundError k (e_name enum_c))
     \<and> (d \<noteq> JUndefined \<longrightarrow> Enum_get enum_c k (Some d) = Inr d)"
proof -
  have n: "lookup_name enum_c k = None"
    using assms(3) by (cases k) (simp_all add: lookup_name_def)
  have g: "reverse_get r k = None"
    using assms(4) by (cases "prim_of k") (simp_all add: reverse_get_def)
  have i: "lookup_int r k = None"
    using assms(5) by (cases k) (auto simp: lookup_int_def reverse_get_def prim_of_def split: option.splits)
  have rv: "lookup_reverse r k = None"
    by (simp add: lookup_reverse_def g i)
  show ?thesis
    using assms(1,2) n rv by (simp add: Enum_get_def)
qed

theorem C2_lookup_miss_witness:
  "e_reverse VERBOSITY \<noteq> None
   \<and> \<not> instanceof (JStr ''nonexistent'') (e_value_cls VERBOSITY)
   \<and> lookup_name VERBOSITY (JStr ''nonexistent'') = None
   \<and> lookup_reverse (the (e_reverse VERBOSITY)) (JStr ''nonexistent'') = None
   \<and> Enum_get VERBOSITY (JStr ''nonexistent'') None = Inl (NotFoundError (JStr ''nonexistent'') ''PackageType'')
   \<and> Enum_get VERBOSITY (JStr ''nonexistent'') (Some (JNum 7)) = Inr (JNum 7)"
proof -
  obtain r where r: "e_reverse VERBOSITY = Some r" using VERBOSITY_miss(1) by blast
  have h3: "\<forall>s. JStr ''nonexistent'' = JStr s \<longrightarrow> map_of (e_members VERBOSITY) (toUpperCase s) = None"
    using VERBOSITY_miss(3) by (simp add: lookup_name_def)
  have h4: "\<forall>p. prim_of (JStr ''nonexistent'') = Some p \<longrightarrow> map_of r p = None"
    using VERBOSITY_miss(4) r
    by (simp add: lookup_reverse_def reverse_get_def prim_of_def split: option.splits)
  have h5: "\<forall>s n. JStr ''nonexistent'' = JStr s \<longrightarrow> parseInt s = Some n \<longrightarrow> map_of r (PNum n) = None"
    by (simp add: parseInt_nonexistent)
  have nm: "e_name VERBOSITY = ''PackageType''" by (simp add: VERBOSITY_eq)
  from C2_lookup_miss[OF r VERBOSITY_miss(2) h3 h4 h5, of "JNum 7"] VERBOSITY_miss nm
  show ?thesis by simp
qed

text \<open>
  C2 as stated fails: \<open>VERBOSITY.get("nonexistent", undefined)\<close> throws the not-found
  error instead of returning the supplied \<open>undefined\<close> (\<open>dflt === undefined\<close> is the
  test for "no default"). On an enumeration built from an array, which has no reverse
  map, a miss throws a TypeError whatever the default (\<open>this.reverse\<close> is
  \<open>undefined\<close>).
\<close>

theorem C2_undefined_default_counterexample:
  "e_reverse VERBOSITY \<noteq> None
   \<and> \<not> instanceof (JStr ''nonexistent'') (e_value_cls VERBOSITY)
   \<and> lookup_name VERBOSITY (JStr ''nonexistent'') = None
   \<and> lookup_reverse (the (e_reverse VERBOSITY)) (JStr ''nonexistent'') = None
   \<and> Enum_get VERBOSITY (JStr ''nonexistent'') (Some JUndefined)
       = Inl (NotFoundError (JStr ''nonexistent'') ''PackageType'')
   \<and> Enum_get VERBOSITY (JStr ''nonexistent'') (Some JUndefined) \<noteq> Inr JUndefined
   \<and> lookup_name PACKAGE_TYPES (JStr ''nonexistent'') = None
   \<and> Enum_get PACKAGE_TYPES (JStr ''nonexistent'') (Some (JNum 7)) = Inl TypeError
   \<and> Enum_get PACKAGE_TYPES (JStr ''nonexistent'') None = Inl TypeError"
proof -
  have nm: "e_name VERBOSITY = ''PackageType''" by (simp add: VERBOSITY_eq)
  show ?thesis
    using VERBOSITY_miss PACKAGE_TYPES_miss nm by (simp add: Enum_get_def)
qed











section \<open>Properties of the versions and of the logging verbosity\<close>

text \<open>
  C9. For every version state with numeric components, \<open>version_at_least\<close> called with
  the major, minor and patch of the current version returns true if and only if the
  requested suffix equals the current suffix (0 when no suffix is passed); in particular
  it returns false for a requested suffix strictly below the current one.
\<close>

theorem C9_version_at_least_suffix_equality:
  assumes "v_major V = Some a" and "v_minor V = Some b" and "v_patch V = Some c"
  shows "version_at_least V a (Some b) (Some c) (Some s) = (v_suffix V = Some s)
       \<and> version_at_least V a (Some b) (Some c) None = (v_suffix V = Some 0)
       \<and> (\<forall>x. v_suffix V = Some x \<longrightarrow> s < x \<longrightarrow> \<not> version_at_least V a (Some b) (Some c) (Some s))"
  using assms by (simp add: version_at_least_def num_eq_def)

theorem C9_version_at_least_suffix_equality_witness:
  "v_major VERSION_init_s2 = Some 1 \<and> v_minor VERSION_init_s2 = Some 99
   \<and> v_patch VERSION_init_s2 = Some 99 \<and> v_suffix VERSION_init_s2 = Some 99
   \<and> version_at_least VERSION_init_s2 1 (Some 99) (Some 99) (Some 99)
   \<and> \<not> version_at_least VERSION_init_s2 1 (Some 99) (Some 99) (Some 98)
   \<and> \<not> version_at_least VERSION_init_s2 1 (Some 99) (Some 99) None"
proof -
  have f: "v_major VERSION_init_s2 = Some 1" "v_minor VERSION_init_s2 = Some 99"
    "v_patch VERSION_init_s2 = Some 99" "v_suffix VERSION_init_s2 = Some 99"
    by (simp_all add: VERSION_init_s2_def)
  from C9_version_at_least_suffix_equality[OF f(1,2,3), of 99]
       C9_version_at_least_suffix_equality[OF f(1,2,3), of 98] f
  show ?thesis by simp
qed

lemma version_match_10: "version_match ''10.291.2.0'' = Some (''10'', ''291'', ''2'', ''0'', [])"
  by code_simp

lemma parseInt_10: "parseInt ''10'' = Some 10" "parseInt ''291'' = Some 291"
  "parseInt ''2'' = Some 2" "parseInt ''0'' = Some 0"
  by code_simp+

lemma git_short_40: "length g = 40 \<Longrightarrow> git_short_of g = take 7 g \<and> length (git_short_of g) = 7"
  by (simp add: git_short_of_def)

lemma parse_of_10:
  "length g = 40 \<Longrightarrow>
   parse_manifest_version_of (Some ''10.291.2.0'') (Some g) =
     Inr \<lparr>v_known = True, v_full = ''10.291.2.0'', v_major = Some 10, v_minor = Some 291,
          v_patch = Some 2, v_suffix = Some 0, v_meta = [], v_git = g, v_git_short = take 7 g,
          v_full_git = ''10.291.2.0 ('' @ take 7 g @ '')''\<rparr>"
  by (simp add: parse_manifest_version_of_def version_match_10 parseInt_10 git_short_40)

lemma parse_s1_10:
  assumes "length g = 40" "\<not> v_known V" "package_manifest h = Inr mf"
    "pk_version mf = Some ''10.291.2.0''" "pk_git_version mf = Some g"
  shows "parse_manifest_version h V =
     \<lparr>v_known = True, v_full = ''10.291.2.0'', v_major = Some 10, v_minor = Some 291,
      v_patch = Some 2, v_suffix = Some 0, v_meta = [], v_git = g, v_git_short = take 7 g,
      v_full_git = ''10.291.2.0 ('' @ take 7 g @ '')''\<rparr>"
  using assms by (simp add: parse_manifest_version_def parse_of_10)

lemma parse_s2_10:
  assumes "length g = 40" "\<not> v_known V" "package_manifest h = Inr mf"
    "pk_version mf = Some ''10.291.2.0''" "pk_git_version mf = Some g"
  shows "parse_manifest_version_s2 h V =
     \<lparr>v_known = True, v_full = ''10.291.2.0'', v_major = Some 10, v_minor = Some 291,
      v_patch = Some 2, v_suffix = Some 0, v_meta = [], v_git = g, v_git_short = take 7 g,
      v_full_git = ''10.291.2.0 ('' @ take 7 g @ '')''\<rparr>"
  using assms
  by (simp add: parse_manifest_version_s2_def version_match_10 parseInt_10 git_short_40 strip_dash_def)

text \<open>
  C8. Parsing the version string \<open>"10.291.2.0"\<close> with a revision hash \<open>g\<close> of 40
  characters yields known = true, major 10, minor 291, patch 2, suffix 0, empty
  metadata and the first 7 characters of \<open>g\<close> as the shortened revision (of length 7):
  by \<open>_parse_manifest_version\<close> of the first snapshot, and by \<open>parse_manifest_version\<close>
  of both snapshots when the version is not yet known and the manifest of the package
  holds that version and hash.
\<close>

theorem C8_parse_10_291_2_0:
  assumes "length g = 40"
  shows "(let r = \<lparr>v_known = True, v_full = ''10.291.2.0'', v_major = Some 10, v_minor = Some 291,
                  v_patch = Some 2, v_suffix = Some 0, v_meta = [], v_git = g,
                  v_git_short = take 7 g, v_full_git = ''10.291.2.0 ('' @ take 7 g @ '')''\<rparr>
          in parse_manifest_version_of (Some ''10.291.2.0'') (Some g) = Inr r
           \<and> (\<not> v_known V \<and> package_manifest h = Inr mf \<and> pk_version mf = Some ''10.291.2.0''
                \<and> pk_git_version mf = Some g
              \<longrightarrow> parse_manifest_version h V = r \<and> parse_manifest_version_s2 h V = r)
           \<and> length (v_git_short r) = 7)"
  using assms parse_of_10[OF assms] parse_s1_10[OF assms] parse_s2_10[OF assms]
  by (simp add: Let_def)

lemma example_host_manifest: "package_manifest example_host = Inr example_manifest"
  by (simp add: package_manifest_def example_host_def)

theorem C8_parse_10_291_2_0_witness:
  "length example_hash = 40
   \<and> \<not> v_known VERSION_init_s2
   \<and> package_manifest example_host = Inr example_manifest
   \<and> parse_manifest_version_of (Some ''10.291.2.0'') (Some example_hash)
       = Inr \<lparr>v_known = True, v_full = ''10.291.2.0'', v_major = Some 10, v_minor = Some 291,
              v_patch = Some 2, v_suffix = Some 0, v_meta = [], v_git = example_hash,
              v_git_short = ''abcdef0'', v_full_git = ''10.291.2.0 (abcdef0)''\<rparr>
   \<and> parse_manifest_version example_host VERSION_init_s2
       = parse_manifest_version_s2 example_host VERSION_init_s2
   \<and> v_git_short (parse_manifest_version_s2 example_host VERSION_init_s2) = ''abcdef0''
   \<and> v_major (parse_manifest_version_s2 example_host VERSION_init_s2) = Some 10
   \<and> v_known (parse_manifest_version_s2 example_host VERSION_init_s2)"
proof -
  have l: "length example_hash = 40" by (simp add: example_hash_def)
  have k: "\<not> v_known VERSION_init_s2" by (simp add: VERSION_init_s2_def)
  have v: "pk_version example_manifest = Some ''10.291.2.0''"
    and g: "pk_git_version example_manifest = Some example_hash"
    by (simp_all add: example_manifest_def)
  have t: "take 7 example_hash = ''abcdef0''" by (simp add: example_hash_def)
  from C8_parse_10_291_2_0[OF l, of VERSION_init_s2 example_host example_manifest]
       l k v g t example_host_manifest
  show ?thesis by (simp add: Let_def)
qed

lemma Log_verbosity_unset:
  "cur = JNull \<or> cur = JUndefined \<Longrightarrow>
   Log_verbosity cur = JObj \<lparr>ev_cls = 1, ev_name = ''WARNING'', ev_value = Some (PNum 400)\<rparr>"
  by (auto simp: Log_verbosity_def VERBOSITY_WARNING)

lemma Log_verbosity_value_unset:
  "cur = JNull \<or> cur = JUndefined \<Longrightarrow> Log_verbosity_value cur = JNum 400"
  by (simp add: Log_verbosity_value_def Log_verbosity_unset verbosity_to_value_def jsval_of_def)

lemma VERBOSITY_member_value:
  "is_member VERBOSITY m \<Longrightarrow> \<exists>x. ev_value m = Some (PNum x)"
  unfolding VERBOSITY_eq is_member_def by auto

lemma VERBOSITY_props:
  "enum_prop VERBOSITY ''ERROR'' = JObj \<lparr>ev_cls = 1, ev_name = ''ERROR'', ev_value = Some (PNum 500)\<rparr>"
  "enum_prop VERBOSITY ''INFO'' = JObj \<lparr>ev_cls = 1, ev_name = ''INFO'', ev_value = Some (PNum 300)\<rparr>"
  "enum_prop VERBOSITY ''WARNING'' = JObj \<lparr>ev_cls = 1, ev_name = ''WARNING'', ev_value = Some (PNum 400)\<rparr>"
  by (simp_all add: enum_prop_def enum_member_def VERBOSITY_eq)

text \<open>
  C10. While \<open>CURRENT_VERBOSITY\<close> is \<open>null\<close> (or \<open>undefined\<close>), \<open>Log.verbosity\<close> is
  \<open>VERBOSITY.WARNING\<close>, of value 400, and \<open>Log.enabled(v)\<close> is true exactly when the
  numeric value of \<open>v\<close> is at least 400, for a number and for a member of \<open>VERBOSITY\<close>:
  true for \<open>ERROR\<close>, false for \<open>INFO\<close> and for no argument.
\<close>

theorem C10_default_verbosity_is_warning:
  assumes "cur = JNull \<or> cur = JUndefined"
  shows "Log_verbosity cur = enum_prop VERBOSITY ''WARNING''
       \<and> Log_verbosity_value cur = JNum 400
       \<and> Log_enabled cur (JNum n) = Some (n \<ge> 400)
       \<and> (is_member VERBOSITY m \<longrightarrow>
            (\<exists>x. ev_value m = Some (PNum x) \<and> Log_enabled cur (JObj m) = Some (x \<ge> 400)))
       \<and> Log_enabled cur (enum_prop VERBOSITY ''ERROR'') = Some True
       \<and> Log_enabled cur (enum_prop VERBOSITY ''INFO'') = Some False
       \<and> Log_enabled cur JNull = Some False
       \<and> Log_enabled cur JUndefined = Some False"
proof -
  have e: "\<And>x. ev_value m = Some (PNum x) \<Longrightarrow> Log_enabled cur (JObj m) = Some (x \<ge> 400)"
    by (simp add: Log_enabled_def Log_verbosity_value_unset[OF assms] verbosity_to_value_def
          jsval_of_def js_ge_def)
  have mm: "is_member VERBOSITY m \<longrightarrow>
            (\<exists>x. ev_value m = Some (PNum x) \<and> Log_enabled cur (JObj m) = Some (x \<ge> 400))"
    using VERBOSITY_member_value[of m] e by blast
  show ?thesis
    using mm
    by (simp add: Log_enabled_def Log_verbosity_value_unset[OF assms] Log_verbosity_unset[OF assms]
          verbosity_to_value_def jsval_of_def js_ge_def VERBOSITY_props)
qed

theorem C10_default_verbosity_is_warning_witness:
  "CURRENT_VERBOSITY_init = JNull
   \<and> Log_verbosity CURRENT_VERBOSITY_init = JObj \<lparr>ev_cls = 1, ev_name = ''WARNING'', ev_value = Some (PNum 400)\<rparr>
   \<and> is_member VERBOSITY \<lparr>ev_cls = 1, ev_name = ''ERROR'', ev_value = Some (PNum 500)\<rparr>
   \<and> Log_enabled CURRENT_VERBOSITY_init (JObj \<lparr>ev_cls = 1, ev_name = ''ERROR'', ev_value = Some (PNum 500)\<rparr>) = Some True
   \<and> is_member VERBOSITY \<lparr>ev_cls = 1, ev_name = ''INFO'', ev_value = Some (PNum 300)\<rparr>
   \<and> Log_enabled CURRENT_VERBOSITY_init (JObj \<lparr>ev_cls = 1, ev_name = ''INFO'', ev_value = Some (PNum 300)\<rparr>) = Some False
   \<and> Log_enabled CURRENT_VERBOSITY_init (JNum 400) = Some True
   \<and> Log_enabled CURRENT_VERBOSITY_init (JNum 399) = Some False"
proof -
  have c: "CURRENT_VERBOSITY_init = JNull \<or> CURRENT_VERBOSITY_init = JUndefined"
    by (simp add: CURRENT_VERBOSITY_init_def)
  have m1: "is_member VERBOSITY \<lparr>ev_cls = 1, ev_name = ''ERROR'', ev_value = Some (PNum 500)\<rparr>"
    and m2: "is_member VERBOSITY \<lparr>ev_cls = 1, ev_name = ''INFO'', ev_value = Some (PNum 300)\<rparr>"
    unfolding VERBOSITY_eq is_member_def by simp_all
  from C10_default_verbosity_is_warning[OF c, of 400 "\<lparr>ev_cls = 1, ev_name = ''ERROR'', ev_value = Some (PNum 500)\<rparr>"]
       C10_default_verbosity_is_warning[OF c, of 399 "\<lparr>ev_cls = 1, ev_name = ''INFO'', ev_value = Some (PNum 300)\<rparr>"]
       m1 m2 VERBOSITY_props
  show ?thesis by (simp add: CURRENT_VERBOSITY_init_def)
qed

section \<open>Properties of the package information\<close>

text \<open>
  \<open>detect_id\<close> as the source writes it: the loop over the stack trace with a
  \<open>matchFn\<close> that calls \<open>this.set(id, type)\<close> and returns \<open>false\<close>. The definition
  above calls \<open>set\<close> on the first match the loop passes on; the two agree.
\<close>

lemma foreach_loop_stops_at_first:
  assumes "\<And>s i ty m0. matchFn s i ty m0 = (case g s i ty of Inl e \<Rightarrow> Inl e | Inr s' \<Rightarrow> Inr (False, s'))"
  shows "foreach_loop h ign matchFn s ms =
     (case foreach_loop h ign record_match None ms of
        Inl e \<Rightarrow> Inl e
      | Inr (_, None) \<Rightarrow> Inr (True, s)
      | Inr (_, Some (i, ty)) \<Rightarrow> (case g s i ty of Inl e \<Rightarrow> Inl e | Inr s' \<Rightarrow> Inr (False, s')))"
proof (induction ms)
  case Nil
  then show ?case by simp
next
  case (Cons m ms)
  show ?case
  proof (cases "classify_match h ign m")
    case Skip
    with Cons show ?thesis by simp
  next
    case (Call i ty m0)
    then show ?thesis
      by (cases "g s i ty") (simp_all add: assms record_match_def)
  next
    case (Throw e)
    then show ?thesis by simp
  qed
qed

lemma foreach_stops_at_first:
  assumes "\<And>s i ty m0. matchFn s i ty m0 = (case g s i ty of Inl e \<Rightarrow> Inl e | Inr s' \<Rightarrow> Inr (False, s'))"
  shows "foreach_package_in_stack_trace h matchFn s st ign =
     (case foreach_package_in_stack_trace h record_match None st ign of
        Inl e \<Rightarrow> Inl e
      | Inr (_, None) \<Rightarrow> Inr (True, s)
      | Inr (_, Some (i, ty)) \<Rightarrow> (case g s i ty of Inl e \<Rightarrow> Inl e | Inr s' \<Rightarrow> Inr (False, s')))"
  unfolding foreach_package_in_stack_trace_def
  by (simp add: foreach_loop_stops_at_first[where g = g, OF assms] split: jsval.splits option.splits)

lemma foreach_s2_stops_at_first:
  assumes "\<And>s i ty m0. matchFn s i ty m0 = (case g s i ty of Inl e \<Rightarrow> Inl e | Inr s' \<Rightarrow> Inr (False, s'))"
  shows "foreach_package_in_stack_trace_s2 h matchFn s st ign =
     (case foreach_package_in_stack_trace_s2 h record_match None st ign of
        Inl e \<Rightarrow> Inl e
      | Inr (_, None) \<Rightarrow> Inr (True, s)
      | Inr (_, Some (i, ty)) \<Rightarrow> (case g s i ty of Inl e \<Rightarrow> Inl e | Inr s' \<Rightarrow> Inr (False, s')))"
  unfolding foreach_package_in_stack_trace_s2_def Let_def
  by (simp add: foreach_loop_stops_at_first[where g = g, OF assms] split: jsval.splits option.splits)

lemma detect_id_as_written:
  "detect_id h obj st =
     (case set_unknown obj of
        Inl e \<Rightarrow> Inl e
      | Inr obj1 \<Rightarrow>
          (case foreach_package_in_stack_trace h
                  (\<lambda>this i ty m0. case PackageInfo_set h this (JStr i) ty True of
                                      Inl e \<Rightarrow> Inl e | Inr this' \<Rightarrow> Inr (False, this'))
                  obj1 st (IGNORE_PACKAGE_IDS h) of
             Inl e \<Rightarrow> Inl e
           | Inr (_, this') \<Rightarrow> Inr this'))"
proof (cases "set_unknown obj")
  case (Inl e)
  then show ?thesis by (subst detect_id.simps) simp
next
  case (Inr obj1)
  show ?thesis
    apply (subst detect_id.simps)
    apply (subst foreach_stops_at_first[where g = "\<lambda>this i ty. PackageInfo_set h this (JStr i) ty True"])
     apply simp
    apply (simp add: Inr first_package_def split: sum.splits option.splits prod.splits)
    done
qed

lemma detect_id_s2_as_written:
  "detect_id_s2 h obj st =
     (case set_unknown obj of
        Inl e \<Rightarrow> Inl e
      | Inr obj1 \<Rightarrow>
          (case foreach_package_in_stack_trace_s2 h
                  (\<lambda>this i ty m0. case PackageInfo_set_s2 h this (JStr i) ty True of
                                      Inl e \<Rightarrow> Inl e | Inr this' \<Rightarrow> Inr (False, this'))
                  obj1 st (IGNORE_PACKAGE_IDS h) of
             Inl e \<Rightarrow> Inl e
           | Inr (_, this') \<Rightarrow> Inr this'))"
proof (cases "set_unknown obj")
  case (Inl e)
  then show ?thesis by (subst detect_id_s2.simps) simp
next
  case (Inr obj1)
  show ?thesis
    apply (subst detect_id_s2.simps)
    apply (subst foreach_s2_stops_at_first[where g = "\<lambda>this i ty. PackageInfo_set_s2 h this (JStr i) ty True"])
     apply simp
    apply (simp add: Inr first_package_s2_def split: sum.splits option.splits prod.splits)
    done
qed


lemma split_on_none: "sep \<notin> set s \<Longrightarrow> split_on sep s = [s]"
  by (induction s) auto

lemma split_on_once: "sep \<notin> set a \<Longrightarrow> split_on sep (a @ sep # b) = a # split_on sep b"
  by (induction a) auto

lemma split_on_pair: "sep \<notin> set a \<Longrightarrow> sep \<notin> set b \<Longrightarrow> split_on sep (a @ sep # b) = [a, b]"
  by (simp add: split_on_once split_on_none)

lemma valid_id_chars:
  assumes "PACKAGE_ID_REGEX_test s"
  shows "s \<noteq> []" and "CHR '':'' \<notin> set s" and "CHR ''~'' \<notin> set s" and "s \<noteq> UNKNOWN_ID"
proof -
  from assms show "s \<noteq> []" by (simp add: PACKAGE_ID_REGEX_test_def)
  have a: "\<forall>c \<in> set s. c \<in> set (lower_letters @ upper_letters @ digit_chars @ ''_-'')"
    using assms by (simp add: PACKAGE_ID_REGEX_test_def list_all_iff)
  have n1: "CHR '':'' \<notin> set (lower_letters @ upper_letters @ digit_chars @ ''_-'')"
    by (simp add: lower_letters_def upper_letters_def digit_chars_def)
  have n2: "CHR ''~'' \<notin> set (lower_letters @ upper_letters @ digit_chars @ ''_-'')"
    by (simp add: lower_letters_def upper_letters_def digit_chars_def)
  have n3: "CHR 0xAB \<notin> set (lower_letters @ upper_letters @ digit_chars @ ''_-'')"
    by (simp add: lower_letters_def upper_letters_def digit_chars_def)
  from a n1 show "CHR '':'' \<notin> set s" by blast
  from a n2 show "CHR ''~'' \<notin> set s" by blast
  from a n3 have "CHR 0xAB \<notin> set s" by blast
  then show "s \<noteq> UNKNOWN_ID" by (auto simp: UNKNOWN_ID_def)
qed

lemma set_typed:
  "s \<noteq> [] \<Longrightarrow> s \<noteq> UNKNOWN_ID \<Longrightarrow> ty \<noteq> JNull \<Longrightarrow> ty \<noteq> JUndefined \<Longrightarrow>
   PackageInfo_set h obj (JStr s) ty fr = set_store h obj s ty fr"
  by (subst PackageInfo_set.simps) (simp add: truthy_def)

lemma set_store_member:
  "PACKAGE_ID_REGEX_test s \<Longrightarrow> instanceof (JObj t) 0 \<Longrightarrow> \<not> p_frozen obj \<Longrightarrow>
   set_store h obj s (JObj t) True = Inr (obj\<lparr>p_id := JStr s, p_type := JObj t, p_frozen := True\<rparr>)"
  by (simp add: set_store_def is_valid_id_def valid_id_chars(1) Enum_has_def PACKAGE_TYPES_eq truthy_def)

lemma Enum_get_types:
  "Enum_get PACKAGE_TYPES (JStr ''module'') None = Inr (enum_prop PACKAGE_TYPES ''MODULE'')"
  "Enum_get PACKAGE_TYPES (JStr ''system'') None = Inr (enum_prop PACKAGE_TYPES ''SYSTEM'')"
  "Enum_get PACKAGE_TYPES (JStr ''world'') None = Inr (enum_prop PACKAGE_TYPES ''WORLD'')"
  by code_simp+

lemma lower_names:
  "toLowerCase ''WORLD'' = ''world''" "toLowerCase ''SYSTEM'' = ''system''"
  "toLowerCase ''MODULE'' = ''module''"
  by code_simp+

lemma parse_key_of:
  assumes "t \<in> trace_types" and "PACKAGE_ID_REGEX_test nm"
  shows "parse_key (key_of t nm) = Inr (JStr nm, JObj t)"
proof -
  from assms(1) consider "t = \<lparr>ev_cls = 0, ev_name = ''WORLD'', ev_value = None\<rparr>"
    | "t = \<lparr>ev_cls = 0, ev_name = ''SYSTEM'', ev_value = None\<rparr>"
    | "t = \<lparr>ev_cls = 0, ev_name = ''MODULE'', ev_value = None\<rparr>"
    by (auto simp: trace_types_def)
  then show ?thesis
  proof cases
    case 1
    have "split_on CHR '':'' (''world'' @ CHR '':'' # nm) = [''world'', nm]"
      by (rule split_on_pair) (simp_all add: valid_id_chars(2)[OF assms(2)])
    then show ?thesis
      by (simp add: parse_key_def key_of_def 1 lower_names KEY_SEPARATOR_def Enum_get_types PT_props)
  next
    case 2
    have "split_on CHR '':'' (''system'' @ CHR '':'' # nm) = [''system'', nm]"
      by (rule split_on_pair) (simp_all add: valid_id_chars(2)[OF assms(2)])
    then show ?thesis
      by (simp add: parse_key_def key_of_def 2 lower_names KEY_SEPARATOR_def Enum_get_types PT_props)
  next
    case 3
    have "split_on CHR '':'' (''module'' @ CHR '':'' # nm) = [''module'', nm]"
      by (rule split_on_pair) (simp_all add: valid_id_chars(2)[OF assms(2)])
    then show ?thesis
      by (simp add: parse_key_def key_of_def 3 lower_names KEY_SEPARATOR_def Enum_get_types PT_props)
  qed
qed

lemma key_of_not_unknown: "t \<in> trace_types \<Longrightarrow> key_of t nm \<noteq> [] \<and> key_of t nm \<noteq> UNKNOWN_ID"
  by (auto simp: trace_types_def key_of_def lower_names UNKNOWN_ID_def)

lemma trace_types_instance: "t \<in> trace_types \<Longrightarrow> instanceof (JObj t) 0"
  by (auto simp: trace_types_def instanceof_def)

lemma PackageInfo_key_of:
  assumes "t \<in> trace_types" and "PACKAGE_ID_REGEX_test nm"
  shows "PackageInfo h (JStr (key_of t nm)) JUndefined
       = Inr \<lparr>p_id = JStr nm, p_type = JObj t, p_frozen = True\<rparr>"
proof -
  have inner: "PackageInfo_set h new_package_info (JStr nm) (JObj t) True
       = Inr \<lparr>p_id = JStr nm, p_type = JObj t, p_frozen = True\<rparr>"
    using set_typed[of nm "JObj t" h new_package_info True]
          set_store_member[OF assms(2) trace_types_instance[OF assms(1)], of new_package_info h]
          valid_id_chars[OF assms(2)]
    by (simp add: new_package_info_def)
  have fk: "from_key h new_package_info (key_of t nm) False
       = Inr (True, \<lparr>p_id = JStr nm, p_type = JObj t, p_frozen = True\<rparr>)"
    by (subst from_key.simps)
       (simp add: parse_key_of[OF assms] truthy_def valid_id_chars(1)[OF assms(2)] inner)
  show ?thesis
    unfolding PackageInfo_def
    by (subst PackageInfo_set.simps)
       (simp add: truthy_def key_of_not_unknown[OF assms(1)] fk)
qed

lemma PackageInfo_explicit:
  assumes "t \<in> trace_types" and "PACKAGE_ID_REGEX_test nm"
  shows "PackageInfo h (JStr nm) (JObj t) = Inr \<lparr>p_id = JStr nm, p_type = JObj t, p_frozen = True\<rparr>"
  using set_typed[of nm "JObj t" h new_package_info True]
        set_store_member[OF assms(2) trace_types_instance[OF assms(1)], of new_package_info h]
        valid_id_chars[OF assms(2)]
  by (simp add: new_package_info_def PackageInfo_def)

lemma my_module_valid: "PACKAGE_ID_REGEX_test ''my-module''"
  by code_simp

lemma key_my_module:
  "key_of \<lparr>ev_cls = 0, ev_name = ''MODULE'', ev_value = None\<rparr> ''my-module'' = ''module:my-module''"
  by (simp add: key_of_def lower_names KEY_SEPARATOR_def)

lemma PackageInfo_module_key_first_snapshot:
  "PackageInfo h (JStr ''module:my-module'') JUndefined
     = Inr \<lparr>p_id = JStr ''my-module'', p_type = enum_prop PACKAGE_TYPES ''MODULE'', p_frozen = True\<rparr>
   \<and> PackageInfo h (JStr ''my-module'') (enum_prop PACKAGE_TYPES ''MODULE'')
     = Inr \<lparr>p_id = JStr ''my-module'', p_type = enum_prop PACKAGE_TYPES ''MODULE'', p_frozen = True\<rparr>
   \<and> equals (projr (PackageInfo h (JStr ''module:my-module'') JUndefined))
             (projr (PackageInfo h (JStr ''my-module'') (enum_prop PACKAGE_TYPES ''MODULE'')))"
proof -
  have t: "\<lparr>ev_cls = 0, ev_name = ''MODULE'', ev_value = None\<rparr> \<in> trace_types"
    by (simp add: trace_types_def)
  from PackageInfo_key_of[OF t my_module_valid, of h] PackageInfo_explicit[OF t my_module_valid, of h]
  show ?thesis by (simp add: key_my_module PT_props equals_def)
qed

text \<open>
  C1. In the second snapshot \<open>from_key\<close> reads the type as \<open>PACKAGE_TYPES[split[0]]\<close>,
  a property lookup that is case sensitive: for the lower-case \<open>module\<close> of a key it is
  \<open>undefined\<close>, and the type is then detected from the host registries. Without the
  global \<open>game\<close> the instance built from \<open>"module:my-module"\<close> has the type UNKNOWN and
  does not equal the one built from \<open>("my-module", MODULE)\<close>. (The first snapshot reads
  the type with \<open>PACKAGE_TYPES.get\<close> and satisfies the claim for every host: lemma
  \<open>PackageInfo_module_key_first_snapshot\<close>.)
\<close>

theorem C1_second_snapshot_key_loses_type:
  "PackageInfo_s2 no_game_host (JStr ''module:my-module'') JUndefined
     = Inr \<lparr>p_id = JStr ''my-module'', p_type = enum_prop PACKAGE_TYPES ''UNKNOWN'', p_frozen = True\<rparr>
   \<and> PackageInfo_s2 no_game_host (JStr ''my-module'') (enum_prop PACKAGE_TYPES ''MODULE'')
     = Inr \<lparr>p_id = JStr ''my-module'', p_type = enum_prop PACKAGE_TYPES ''MODULE'', p_frozen = True\<rparr>
   \<and> \<not> equals (projr (PackageInfo_s2 no_game_host (JStr ''module:my-module'') JUndefined))
               (projr (PackageInfo_s2 no_game_host (JStr ''my-module'') (enum_prop PACKAGE_TYPES ''MODULE'')))
   \<and> class_prop PACKAGE_TYPES ''module'' = Inr JUndefined"
  by code_simp

lemma foreach_loop_collect_error:
  "foreach_loop h ign (collect_matchFn incl) keys ms = Inl e \<Longrightarrow>
   e = TypeError \<or> (\<exists>ty. e = InvalidScriptTypeError ty)"
proof (induction ms arbitrary: keys)
  case Nil
  then show ?case by simp
next
  case (Cons m ms)
  show ?case
  proof (cases "classify_match h ign m")
    case Skip
    with Cons show ?thesis by simp
  next
    case (Call nm ty m0)
    show ?thesis
    proof (cases "collect_matchFn incl keys nm ty m0")
      case (Inl e')
      then have "e' = TypeError"
        by (auto simp: collect_matchFn_def split: jsval.splits if_splits)
      with Cons.prems Call Inl show ?thesis by simp
    next
      case (Inr r)
      obtain b keys' where r: "r = (b, keys')" by (cases r)
      from Inr r have "b" by (auto simp: collect_matchFn_def split: jsval.splits if_splits)
      with Cons.prems Call Inr r have "foreach_loop h ign (collect_matchFn incl) keys' ms = Inl e"
        by simp
      then show ?thesis by (rule Cons.IH)
    qed
  next
    case (Throw e')
    with Cons.prems have "e = e'" by simp
    moreover from Throw obtain ty where "e' = InvalidScriptTypeError ty"
      by (cases m) (auto simp: classify_match_def split: if_splits)
    ultimately show ?thesis by blast
  qed
qed

lemma foreach_loop_record_error:
  "foreach_loop h ign record_match s ms = Inl e \<Longrightarrow> (\<exists>ty. e = InvalidScriptTypeError ty)"
proof (induction ms arbitrary: s)
  case Nil
  then show ?case by simp
next
  case (Cons m ms)
  show ?case
  proof (cases "classify_match h ign m")
    case Skip
    with Cons show ?thesis by simp
  next
    case (Call nm ty m0)
    with Cons.prems show ?thesis by (simp add: record_match_def)
  next
    case (Throw e')
    with Cons.prems have "e = e'" by simp
    moreover from Throw obtain ty where "e' = InvalidScriptTypeError ty"
      by (cases m) (auto simp: classify_match_def split: if_splits)
    ultimately show ?thesis by blast
  qed
qed

lemma first_package_no_capture: "first_package h st \<noteq> Inl CaptureError"
proof
  assume a: "first_package h st = Inl CaptureError"
  then have "foreach_package_in_stack_trace h record_match None st (IGNORE_PACKAGE_IDS h) = Inl CaptureError"
    by (auto simp: first_package_def split: sum.splits)
  then show False
    by (auto simp: foreach_package_in_stack_trace_def split: jsval.splits option.splits if_splits
             dest: foreach_loop_record_error)
qed

lemma set_store_no_capture: "set_store h obj s ty fr \<noteq> Inl CaptureError"
  by (simp add: set_store_def Let_def)

lemma set_unknown_no_capture: "set_unknown obj \<noteq> Inl CaptureError"
  by (simp add: set_unknown_def)

lemma Enum_get_no_capture: "Enum_get E v d \<noteq> Inl CaptureError"
  by (simp add: Enum_get_def Let_def)

lemma parse_key_no_capture: "parse_key key \<noteq> Inl CaptureError"
  using Enum_get_no_capture
  by (auto simp: parse_key_def split: list.splits sum.splits)

lemma set_no_capture:
  "PackageInfo_set h obj i ty fr \<noteq> Inl CaptureError"
  "from_key h obj key fail \<noteq> Inl CaptureError"
  "detect_id h obj st \<noteq> Inl CaptureError"
proof (induction h obj i ty fr and h obj key fail and h obj st
       rule: PackageInfo_set_from_key_detect_id.induct)
  case (1 h obj id_arg type_arg freeze)
  show ?case
    apply (subst PackageInfo_set.simps)
    using 1 set_store_no_capture set_unknown_no_capture
    apply (auto split: jsval.splits sum.splits)
    done
next
  case (2 h obj key fail)
  show ?case
    apply (subst from_key.simps)
    using 2 parse_key_no_capture[of key]
    apply (auto split: sum.splits)
    done
next
  case (3 h obj stack_trace)
  show ?case
    apply (subst detect_id.simps)
    using 3 set_unknown_no_capture[of obj] first_package_no_capture[of h stack_trace]
    apply (auto split: sum.splits option.splits)
    done
qed

lemma construct_all_no_capture: "construct_all h keys \<noteq> Inl CaptureError"
proof (induction keys)
  case Nil
  then show ?case by simp
next
  case (Cons k ks)
  then show ?case
    using set_no_capture(1)[of h new_package_info "JStr k" JUndefined True]
    by (auto simp: PackageInfo_def split: sum.splits)
qed

lemma collect_all_no_capture: "collect_all h st incl ign \<noteq> Inl CaptureError"
proof
  assume a: "collect_all h st incl ign = Inl CaptureError"
  show False
  proof (cases "foreach_package_in_stack_trace h (collect_matchFn incl) [] st ign")
    case (Inl e)
    with a have "e = CaptureError" by (simp add: collect_all_def)
    with Inl show False
      by (auto simp: foreach_package_in_stack_trace_def split: jsval.splits option.splits if_splits
               dest: foreach_loop_collect_error)
  next
    case (Inr r)
    with a construct_all_no_capture[of h "snd r"] show False
      by (cases r) (simp add: collect_all_def)
  qed
qed

lemma collect_all_empty: "collect_all h (JStr []) incl ign = Inr []"
  by (simp add: collect_all_def foreach_package_in_stack_trace_def)

lemma collect_all_s2_empty: "collect_all_s2 h (JStr []) incl ign = Inl CaptureError"
  by (simp add: collect_all_s2_def foreach_package_in_stack_trace_s2_def)

lemma foreach_s2_capture_iff:
  "foreach_package_in_stack_trace_s2 h (collect_matchFn incl) [] st ign = Inl CaptureError
   \<longleftrightarrow> (st = JUndefined \<and> (h_stack h = None \<or> h_stack h = Some []))
       \<or> (st \<noteq> JUndefined \<and> (\<forall>t. st = JStr t \<longrightarrow> t = []))"
proof -
  have loop: "\<And>t. foreach_loop h ign (collect_matchFn incl) [] (stack_trace_matches t) \<noteq> Inl CaptureError"
    using foreach_loop_collect_error by fastforce
  show ?thesis
  proof (cases st)
    case JUndefined
    then show ?thesis
      using loop by (cases "h_stack h") (simp_all add: foreach_package_in_stack_trace_s2_def)
  next
    case (JStr t)
    then show ?thesis
      using loop by (simp add: foreach_package_in_stack_trace_s2_def)
  qed (simp_all add: foreach_package_in_stack_trace_s2_def)
qed

text \<open>
  C3, as amended. First snapshot: with the empty string supplied as trace text
  \<open>collect_all\<close> returns the empty sequence, and \<open>collect_all\<close> never fails with the
  capture error, whatever is supplied or captured. Second snapshot: with the empty string
  supplied \<open>collect_all\<close> fails with the capture error; its enumeration fails with the
  capture error exactly when the trace text, supplied or else captured, is empty or not a
  string.
\<close>

theorem C3_empty_trace_text:
  "collect_all h (JStr []) incl ign = Inr []
   \<and> collect_all h st incl ign \<noteq> Inl CaptureError
   \<and> collect_all_s2 h (JStr []) incl ign = Inl CaptureError
   \<and> (foreach_package_in_stack_trace_s2 h (collect_matchFn incl) [] st ign = Inl CaptureError
        \<longleftrightarrow> (st = JUndefined \<and> (h_stack h = None \<or> h_stack h = Some []))
            \<or> (st \<noteq> JUndefined \<and> (\<forall>t. st = JStr t \<longrightarrow> t = [])))"
  using collect_all_empty collect_all_no_capture collect_all_s2_empty foreach_s2_capture_iff
  by blast

theorem C3_empty_trace_text_witness:
  "collect_all no_game_host (JStr []) None IgnoreNone = Inr []
   \<and> collect_all no_game_host JUndefined None IgnoreNone \<noteq> Inl CaptureError
   \<and> collect_all_s2 no_game_host (JStr []) None IgnoreNone = Inl CaptureError
   \<and> h_stack no_game_host = None
   \<and> foreach_package_in_stack_trace_s2 no_game_host (collect_matchFn None) [] JUndefined IgnoreNone
       = Inl CaptureError
   \<and> foreach_package_in_stack_trace_s2 no_game_host (collect_matchFn None) []
        (JStr ''at f (http://localhost/modules/alpha/x.js:1:1)'') IgnoreNone
       \<noteq> Inl CaptureError"
proof -
  have s: "h_stack no_game_host = None" by (simp add: no_game_host_def)
  from C3_empty_trace_text[of no_game_host None IgnoreNone JUndefined]
       C3_empty_trace_text[of no_game_host None IgnoreNone "JStr ''at f (http://localhost/modules/alpha/x.js:1:1)''"]
       s
  show ?thesis by simp
qed

text \<open>
  C3 as stated fails on the second snapshot: the empty string, explicitly supplied, is
  refused by \<open>if(!stack_trace || typeof stack_trace !== 'string') throw\<close>.
\<close>

theorem C3_second_snapshot_counterexample:
  "collect_all_s2 no_game_host (JStr []) None IgnoreNone = Inl CaptureError"
  by (simp add: collect_all_s2_def foreach_package_in_stack_trace_s2_def)



lemma classify_Call_types:
  assumes "classify_match h ign m = Call nm ty m0"
  shows "\<exists>t \<in> trace_types. ty = JObj t" and "nm \<noteq> []" and "nm = snd (snd m)"
  using assms
  by (cases m; auto simp: classify_match_def PT_props trace_types_def split: if_splits)+

lemma classify_no_throw:
  "fst (snd m) \<in> {''worlds'', ''systems'', ''modules''} \<Longrightarrow> classify_match h ign m \<noteq> Throw e"
  by (cases m) (auto simp: classify_match_def)

lemma classify_alpha:
  assumes "\<not> ignored ign ''alpha''"
    and "game_modules h = None \<or> (\<exists>ms. game_modules h = Some ms \<and> map_of ms ''alpha'' \<noteq> None)"
  shows "classify_match h ign (l, ''modules'', ''alpha'')
       = Call ''alpha'' (JObj \<lparr>ev_cls = 0, ev_name = ''MODULE'', ev_value = None\<rparr>) l"
  using assms by (auto simp: classify_match_def PT_props)

lemma foreach_loop_collect:
  assumes "\<forall>m \<in> set ms. \<forall>e. classify_match h ign m \<noteq> Throw e"
  shows "\<exists>keys'. foreach_loop h ign (collect_matchFn incl) keys ms = Inr (True, keys')
     \<and> (distinct keys \<longrightarrow> distinct keys')
     \<and> set keys \<subseteq> set keys'
     \<and> (\<forall>k \<in> set keys'. k \<in> set keys \<or>
           (\<exists>m \<in> set ms. \<exists>nm t m0. classify_match h ign m = Call nm (JObj t) m0 \<and> k = key_of t nm))
     \<and> (\<forall>m \<in> set ms. \<forall>nm t m0. classify_match h ign m = Call nm (JObj t) m0 \<longrightarrow>
           \<not> excluded incl nm (JObj t) m0 \<longrightarrow> key_of t nm \<in> set keys')"
  using assms
proof (induction ms arbitrary: keys)
  case Nil
  then show ?case by simp
next
  case (Cons m ms)
  from Cons.prems have nt: "\<forall>m \<in> set ms. \<forall>e. classify_match h ign m \<noteq> Throw e" by simp
  show ?case
  proof (cases "classify_match h ign m")
    case Skip
    from Cons.IH[OF nt, of keys] obtain keys' where
      r: "foreach_loop h ign (collect_matchFn incl) keys ms = Inr (True, keys')"
      and d: "distinct keys \<longrightarrow> distinct keys'" and s: "set keys \<subseteq> set keys'"
      and c: "\<forall>k \<in> set keys'. k \<in> set keys \<or>
           (\<exists>m \<in> set ms. \<exists>nm t m0. classify_match h ign m = Call nm (JObj t) m0 \<and> k = key_of t nm)"
      and i: "\<forall>m \<in> set ms. \<forall>nm t m0. classify_match h ign m = Call nm (JObj t) m0 \<longrightarrow>
           \<not> excluded incl nm (JObj t) m0 \<longrightarrow> key_of t nm \<in> set keys'"
      by blast
    have "foreach_loop h ign (collect_matchFn incl) keys (m # ms) = Inr (True, keys')"
      using Skip r by simp
    moreover have "\<forall>k \<in> set keys'. k \<in> set keys \<or>
           (\<exists>m' \<in> set (m # ms). \<exists>nm t m0. classify_match h ign m' = Call nm (JObj t) m0 \<and> k = key_of t nm)"
      using c by auto
    moreover have "\<forall>m' \<in> set (m # ms). \<forall>nm t m0. classify_match h ign m' = Call nm (JObj t) m0 \<longrightarrow>
           \<not> excluded incl nm (JObj t) m0 \<longrightarrow> key_of t nm \<in> set keys'"
      using i Skip by auto
    ultimately show ?thesis using d s by blast
  next
    case (Throw e)
    with Cons.prems show ?thesis by simp
  next
    case (Call nm ty m0)
    from classify_Call_types(1)[OF Call] obtain t where ty: "ty = JObj t" by blast
    define keys1 where "keys1 = (if key_of t nm \<in> set keys \<or> excluded incl nm (JObj t) m0
                                 then keys else keys @ [key_of t nm])"
    have step: "collect_matchFn incl keys nm ty m0 = Inr (True, keys1)"
      by (simp add: collect_matchFn_def ty keys1_def)
    from Cons.IH[OF nt, of keys1] obtain keys' where
      r: "foreach_loop h ign (collect_matchFn incl) keys1 ms = Inr (True, keys')"
      and d: "distinct keys1 \<longrightarrow> distinct keys'" and s: "set keys1 \<subseteq> set keys'"
      and c: "\<forall>k \<in> set keys'. k \<in> set keys1 \<or>
           (\<exists>m \<in> set ms. \<exists>nm t m0. classify_match h ign m = Call nm (JObj t) m0 \<and> k = key_of t nm)"
      and i: "\<forall>m \<in> set ms. \<forall>nm t m0. classify_match h ign m = Call nm (JObj t) m0 \<longrightarrow>
           \<not> excluded incl nm (JObj t) m0 \<longrightarrow> key_of t nm \<in> set keys'"
      by blast
    have k1: "set keys \<subseteq> set keys1" "distinct keys \<longrightarrow> distinct keys1"
      "\<forall>k \<in> set keys1. k \<in> set keys \<or> k = key_of t nm"
      "\<not> excluded incl nm (JObj t) m0 \<longrightarrow> key_of t nm \<in> set keys1"
      by (auto simp: keys1_def)
    have "foreach_loop h ign (collect_matchFn incl) keys (m # ms) = Inr (True, keys')"
      using Call step r by simp
    moreover have "distinct keys \<longrightarrow> distinct keys'" using d k1(2) by blast
    moreover have "set keys \<subseteq> set keys'" using s k1(1) by blast
    moreover have "\<forall>k \<in> set keys'. k \<in> set keys \<or>
           (\<exists>m' \<in> set (m # ms). \<exists>nm t m0. classify_match h ign m' = Call nm (JObj t) m0 \<and> k = key_of t nm)"
    proof
      fix k assume "k \<in> set keys'"
      with c have "k \<in> set keys1 \<or>
           (\<exists>m \<in> set ms. \<exists>nm t m0. classify_match h ign m = Call nm (JObj t) m0 \<and> k = key_of t nm)"
        by blast
      then show "k \<in> set keys \<or>
           (\<exists>m' \<in> set (m # ms). \<exists>nm t m0. classify_match h ign m' = Call nm (JObj t) m0 \<and> k = key_of t nm)"
      proof
        assume "k \<in> set keys1"
        with k1(3) have "k \<in> set keys \<or> k = key_of t nm" by blast
        then show ?thesis using Call ty by auto
      next
        assume "\<exists>m \<in> set ms. \<exists>nm t m0. classify_match h ign m = Call nm (JObj t) m0 \<and> k = key_of t nm"
        then show ?thesis by auto
      qed
    qed
    moreover have "\<forall>m' \<in> set (m # ms). \<forall>nm' t' m0'. classify_match h ign m' = Call nm' (JObj t') m0' \<longrightarrow>
           \<not> excluded incl nm' (JObj t') m0' \<longrightarrow> key_of t' nm' \<in> set keys'"
    proof (intro ballI allI impI)
      fix m' nm' t' m0'
      assume m': "m' \<in> set (m # ms)" and cl: "classify_match h ign m' = Call nm' (JObj t') m0'"
        and ex: "\<not> excluded incl nm' (JObj t') m0'"
      show "key_of t' nm' \<in> set keys'"
      proof (cases "m' = m")
        case True
        with cl Call ty have "nm' = nm" "t' = t" "m0' = m0" by simp_all
        with ex k1(4) s show ?thesis by blast
      next
        case False
        with m' have "m' \<in> set ms" by simp
        with i cl ex show ?thesis by blast
      qed
    qed
    ultimately show ?thesis by blast
  qed
qed

lemma alpha_valid: "PACKAGE_ID_REGEX_test ''alpha''"
  by code_simp

lemma key_of_inj_alpha:
  assumes "t \<in> trace_types"
  shows "(key_of t nm = key_of \<lparr>ev_cls = 0, ev_name = ''MODULE'', ev_value = None\<rparr> ''alpha'')
       = (t = \<lparr>ev_cls = 0, ev_name = ''MODULE'', ev_value = None\<rparr> \<and> nm = ''alpha'')"
  using assms by (auto simp: trace_types_def key_of_def lower_names KEY_SEPARATOR_def)

lemma construct_all_count:
  assumes "\<forall>k \<in> set ks. \<exists>p. PackageInfo h (JStr k) JUndefined = Inr p \<and> (P p \<longleftrightarrow> k = k0)"
  shows "\<exists>ps. construct_all h ks = Inr ps \<and> length (filter P ps) = length (filter (\<lambda>k. k = k0) ks)"
  using assms
proof (induction ks)
  case Nil
  then show ?case by simp
next
  case (Cons k ks)
  from Cons.prems obtain p where p: "PackageInfo h (JStr k) JUndefined = Inr p" and pk: "P p \<longleftrightarrow> k = k0"
    by auto
  from Cons.IH Cons.prems obtain ps where ps: "construct_all h ks = Inr ps"
    and c: "length (filter P ps) = length (filter (\<lambda>k. k = k0) ks)" by auto
  have "construct_all h (k # ks) = Inr (p # ps)" using p ps by simp
  moreover have "length (filter P (p # ps)) = length (filter (\<lambda>k. k = k0) (k # ks))"
    using pk c by simp
  ultimately show ?case by blast
qed

lemma distinct_count_one: "distinct ks \<Longrightarrow> k0 \<in> set ks \<Longrightarrow> length (filter (\<lambda>k. k = k0) ks) = 1"
  by (induction ks) (auto simp: filter_empty_conv)

lemma matches_member:
  "l \<in> set (js_lines trace) \<Longrightarrow> match_line l = Some (d, nm) \<Longrightarrow> (l, d, nm) \<in> set (stack_trace_matches trace)"
  by (force simp: stack_trace_matches_def)

lemma matches_nonempty: "l \<in> set (js_lines trace) \<Longrightarrow> match_line l = Some r \<Longrightarrow> trace \<noteq> []"
  by (cases trace) auto

text \<open>
  C6, as amended (first snapshot). Let two lines of the supplied trace text be matched by
  the stack trace pattern as \<open>modules/alpha\<close>, with \<open>alpha\<close> not filtered by \<open>ignore_ids\<close>,
  no module registry or \<open>alpha\<close> in it, and no \<open>include_fn\<close> or one that accepts
  \<open>alpha\<close>. If moreover every root directory the pattern matches in the text is written
  in lower case, and every identifier the loop passes on is a valid package id, then
  \<open>collect_all\<close> returns a list that holds exactly one entry of identifier \<open>alpha\<close> and
  type MODULE.
\<close>

theorem C6_collect_all_deduplicates:
  assumes lines: "l1 \<in> set (js_lines trace)" "l2 \<in> set (js_lines trace)"
      "match_line l1 = Some (''modules'', ''alpha'')" "match_line l2 = Some (''modules'', ''alpha'')"
    and ign: "\<not> ignored ign ''alpha''"
    and reg: "game_modules h = None \<or> (\<exists>ms. game_modules h = Some ms \<and> map_of ms ''alpha'' \<noteq> None)"
    and incl: "\<forall>m0. \<not> excluded incl ''alpha'' (enum_prop PACKAGE_TYPES ''MODULE'') m0"
    and lower: "\<forall>m \<in> set (stack_trace_matches trace). fst (snd m) \<in> {''worlds'', ''systems'', ''modules''}"
    and valid: "\<forall>m \<in> set (stack_trace_matches trace). \<forall>nm ty m0.
                  classify_match h ign m = Call nm ty m0 \<longrightarrow> PACKAGE_ID_REGEX_test nm"
  shows "\<exists>ps. collect_all h (JStr trace) incl ign = Inr ps
           \<and> length (filter (\<lambda>p. p_id p = JStr ''alpha''
                                 \<and> p_type p = enum_prop PACKAGE_TYPES ''MODULE'') ps) = 1"
proof -
  let ?M = "\<lparr>ev_cls = 0, ev_name = ''MODULE'', ev_value = None\<rparr>"
  let ?ms = "stack_trace_matches trace"
  let ?P = "\<lambda>p. p_id p = JStr ''alpha'' \<and> p_type p = enum_prop PACKAGE_TYPES ''MODULE''"
  let ?k0 = "key_of ?M ''alpha''"
  have ne: "trace \<noteq> []" using lines(1,3) by (rule matches_nonempty)
  have nt: "\<forall>m \<in> set ?ms. \<forall>e. classify_match h ign m \<noteq> Throw e"
    using lower classify_no_throw by blast
  from foreach_loop_collect[OF nt, of incl "[]"] obtain keys where
    loop: "foreach_loop h ign (collect_matchFn incl) [] ?ms = Inr (True, keys)"
    and d: "distinct keys"
    and c: "\<forall>k \<in> set keys. \<exists>m \<in> set ?ms. \<exists>nm t m0. classify_match h ign m = Call nm (JObj t) m0 \<and> k = key_of t nm"
    and i: "\<forall>m \<in> set ?ms. \<forall>nm t m0. classify_match h ign m = Call nm (JObj t) m0 \<longrightarrow>
           \<not> excluded incl nm (JObj t) m0 \<longrightarrow> key_of t nm \<in> set keys"
    by auto
  have m1: "(l1, ''modules'', ''alpha'') \<in> set ?ms" using lines(1,3) by (rule matches_member)
  have "classify_match h ign (l1, ''modules'', ''alpha'') = Call ''alpha'' (JObj ?M) l1"
    using ign reg by (rule classify_alpha)
  with i m1 incl have k0: "?k0 \<in> set keys" by (auto simp: PT_props)
  have each: "\<forall>k \<in> set keys. \<exists>p. PackageInfo h (JStr k) JUndefined = Inr p \<and> (?P p \<longleftrightarrow> k = ?k0)"
  proof
    fix k assume "k \<in> set keys"
    with c obtain m nm t m0 where m: "m \<in> set ?ms"
      and cl: "classify_match h ign m = Call nm (JObj t) m0" and k: "k = key_of t nm" by blast
    from classify_Call_types(1)[OF cl] have t: "t \<in> trace_types" by simp
    from valid m cl have v: "PACKAGE_ID_REGEX_test nm" by blast
    have "PackageInfo h (JStr k) JUndefined = Inr \<lparr>p_id = JStr nm, p_type = JObj t, p_frozen = True\<rparr>"
      unfolding k by (rule PackageInfo_key_of[OF t v])
    moreover have "?P \<lparr>p_id = JStr nm, p_type = JObj t, p_frozen = True\<rparr> \<longleftrightarrow> k = ?k0"
      unfolding k key_of_inj_alpha[OF t] by (auto simp: PT_props)
    ultimately show "\<exists>p. PackageInfo h (JStr k) JUndefined = Inr p \<and> (?P p \<longleftrightarrow> k = ?k0)" by blast
  qed
  from construct_all_count[OF each] obtain ps where ps: "construct_all h keys = Inr ps"
    and n: "length (filter ?P ps) = length (filter (\<lambda>k. k = ?k0) keys)" by blast
  have "collect_all h (JStr trace) incl ign = Inr ps"
    using ne loop ps by (simp add: collect_all_def foreach_package_in_stack_trace_def)
  moreover have "length (filter ?P ps) = 1"
    using n distinct_count_one[OF d k0] by simp
  ultimately show ?thesis by blast
qed

lemma example_trace_lines:
  "alpha_line_x \<in> set (js_lines example_trace)" "alpha_line_y \<in> set (js_lines example_trace)"
  "alpha_line_x \<in> set (js_lines invalid_id_trace)" "alpha_line_y \<in> set (js_lines invalid_id_trace)"
  "alpha_line_x \<in> set (js_lines upper_case_trace)" "alpha_line_y \<in> set (js_lines upper_case_trace)"
  "match_line alpha_line_x = Some (''modules'', ''alpha'')"
  "match_line alpha_line_y = Some (''modules'', ''alpha'')"
  by code_simp+

lemma example_trace_matches:
  "stack_trace_matches example_trace =
     [(alpha_line_x, ''modules'', ''alpha''), (alpha_line_y, ''modules'', ''alpha''),
      (''    at baz (http://localhost:30000/systems/dnd5e/module/z.js:1:1)'', ''systems'', ''dnd5e'')]"
  by code_simp

lemma dnd5e_valid: "PACKAGE_ID_REGEX_test ''dnd5e''"
  by code_simp

lemma not_ignored_alpha:
  "\<not> ignored (IGNORE_PACKAGE_IDS no_game_host) ''alpha''" "\<not> ignored IgnoreNone ''alpha''"
  by code_simp+

lemma example_collect_all:
  "collect_all no_game_host (JStr example_trace) None (IGNORE_PACKAGE_IDS no_game_host)
     = Inr [\<lparr>p_id = JStr ''alpha'', p_type = enum_prop PACKAGE_TYPES ''MODULE'', p_frozen = True\<rparr>,
            \<lparr>p_id = JStr ''dnd5e'', p_type = enum_prop PACKAGE_TYPES ''SYSTEM'', p_frozen = True\<rparr>]"
  by code_simp

theorem C6_collect_all_deduplicates_witness:
  "alpha_line_x \<in> set (js_lines example_trace) \<and> alpha_line_y \<in> set (js_lines example_trace)
   \<and> alpha_line_x \<noteq> alpha_line_y
   \<and> match_line alpha_line_x = Some (''modules'', ''alpha'')
   \<and> match_line alpha_line_y = Some (''modules'', ''alpha'')
   \<and> \<not> ignored (IGNORE_PACKAGE_IDS no_game_host) ''alpha''
   \<and> game_modules no_game_host = None
   \<and> collect_all no_game_host (JStr example_trace) None (IGNORE_PACKAGE_IDS no_game_host)
       = Inr [\<lparr>p_id = JStr ''alpha'', p_type = enum_prop PACKAGE_TYPES ''MODULE'', p_frozen = True\<rparr>,
              \<lparr>p_id = JStr ''dnd5e'', p_type = enum_prop PACKAGE_TYPES ''SYSTEM'', p_frozen = True\<rparr>]
   \<and> (\<exists>ps. collect_all no_game_host (JStr example_trace) None (IGNORE_PACKAGE_IDS no_game_host) = Inr ps
           \<and> length (filter (\<lambda>p. p_id p = JStr ''alpha''
                                 \<and> p_type p = enum_prop PACKAGE_TYPES ''MODULE'') ps) = 1)"
proof -
  have g: "game_modules no_game_host = None" by (simp add: game_modules_def no_game_host_def)
  have ne: "alpha_line_x \<noteq> alpha_line_y" by (simp add: alpha_line_x_def alpha_line_y_def)
  have incl: "\<forall>m0. \<not> excluded None ''alpha'' (enum_prop PACKAGE_TYPES ''MODULE'') m0"
    by (simp add: excluded_def)
  have lower: "\<forall>m \<in> set (stack_trace_matches example_trace).
                 fst (snd m) \<in> {''worlds'', ''systems'', ''modules''}"
    by (simp add: example_trace_matches)
  have ids: "\<forall>m \<in> set (stack_trace_matches example_trace). PACKAGE_ID_REGEX_test (snd (snd m))"
    by (simp add: example_trace_matches alpha_valid dnd5e_valid)
  have valid: "\<forall>m \<in> set (stack_trace_matches example_trace). \<forall>nm ty m0.
                 classify_match no_game_host (IGNORE_PACKAGE_IDS no_game_host) m = Call nm ty m0
                 \<longrightarrow> PACKAGE_ID_REGEX_test nm"
    using ids classify_Call_types(3) by blast
  from C6_collect_all_deduplicates[OF example_trace_lines(1,2,7,8) not_ignored_alpha(1) _ incl lower valid]
       g example_trace_lines not_ignored_alpha ne example_collect_all
  show ?thesis by simp
qed

text \<open>
  C6 as stated fails: a trace that holds both lines of \<open>alpha\<close> and a third frame under
  \<open>/modules/bad.id/\<close> makes \<open>collect_all\<close> throw, since \<open>new PackageInfo(key)\<close>
  validates every identifier. A frame whose root directory is written \<open>Modules\<close> is
  matched by the pattern (flag \<open>i\<close>) and makes the loop throw "Invalid script type".
\<close>

theorem C6_invalid_identifier_counterexample:
  "alpha_line_x \<in> set (js_lines invalid_id_trace) \<and> alpha_line_y \<in> set (js_lines invalid_id_trace)
   \<and> match_line alpha_line_x = Some (''modules'', ''alpha'')
   \<and> match_line alpha_line_y = Some (''modules'', ''alpha'')
   \<and> \<not> ignored IgnoreNone ''alpha''
   \<and> game_modules no_game_host = None
   \<and> collect_all no_game_host (JStr invalid_id_trace) None IgnoreNone
       = Inl (InvalidPackageIdError ''bad.id'')
   \<and> alpha_line_x \<in> set (js_lines upper_case_trace) \<and> alpha_line_y \<in> set (js_lines upper_case_trace)
   \<and> collect_all no_game_host (JStr upper_case_trace) None IgnoreNone
       = Inl (InvalidScriptTypeError ''Modules'')"
proof -
  have g: "game_modules no_game_host = None" by (simp add: game_modules_def no_game_host_def)
  have c1: "collect_all no_game_host (JStr invalid_id_trace) None IgnoreNone
       = Inl (InvalidPackageIdError ''bad.id'')" by code_simp
  have c2: "collect_all no_game_host (JStr upper_case_trace) None IgnoreNone
       = Inl (InvalidScriptTypeError ''Modules'')" by code_simp
  show ?thesis using g c1 c2 example_trace_lines not_ignored_alpha by simp
qed







end
